theory Spec2Isabelle
  imports Complex_Main "HOL-Library.Log_Nat"
begin

section \<open>HelloHealth frontend: \<open>Frontend/script.js\<close>\<close>

text \<open>
  The script has three parts: the symptom query (\<open>fetchSymptoms\<close>, \<open>displayResults\<close> and the
  two click handlers), the tilt and glare effect on cards (\<open>initTiltCards\<close>) and the periodic
  hero animation (\<open>periodicHeroAnimation\<close>). Each function of the script is a function here
  under its own name. What the script does to the page is written as a list of effects, in
  program order, and a small model of the page interprets them. The values the script computes
  with are the values of the language: numbers are IEEE 754 doubles with their rounding, and
  the body of a response is a JSON value with the coercions the language applies to it.
\<close>

subsection \<open>Numbers\<close>

text \<open>
  A Number is a double: not-a-number, an infinity, or a finite value. Finite values are held
  as reals; every arithmetic operation rounds its exact result to the nearest double, ties to
  the even significand (\<open>round_double\<close>), overflowing to an infinity at \<open>2 ^ 1024\<close>. The two
  zeros are one value here: the script never divides by a computed zero whose sign matters, and
  both zeros print as \<open>0\<close>.
\<close>

datatype jsnum = NaN | PInf | NInf | Fin real

text \<open>The number of digits of a positive integer \<open>n\<close> in base \<open>b\<close>.\<close>

function digit_count :: "int \<Rightarrow> int \<Rightarrow> nat" where
  "digit_count b n = (if n \<le> 0 \<or> b \<le> 1 then 0 else Suc (digit_count b (n div b)))"
  by pat_completeness auto
termination
proof (relation "measure (\<lambda>(b, n). nat n)")
  fix b n :: int
  assume "\<not> (n \<le> 0 \<or> b \<le> 1)"
  then have "n div b < n" by (simp add: int_div_less_self)
  then show "((b, n div b), (b, n)) \<in> measure (\<lambda>(b, n). nat n)"
    using \<open>\<not> (n \<le> 0 \<or> b \<le> 1)\<close> by simp
qed simp

text \<open>\<open>ilog2 x\<close> is the binary exponent of \<open>x\<close>: the \<open>e\<close> with \<open>2 ^ e \<le> \<bar>x\<bar> < 2 ^ (e + 1)\<close>.\<close>

definition ilog2 :: "real \<Rightarrow> int" where
  "ilog2 x = (if 1 \<le> \<bar>x\<bar> then int (digit_count 2 \<lfloor>\<bar>x\<bar>\<rfloor>) - 1
              else - int (digit_count 2 (\<lceil>1 / \<bar>x\<bar>\<rceil> - 1)))"

definition round_half_even :: "real \<Rightarrow> int" where
  "round_half_even y = (let f = \<lfloor>y\<rfloor>; d = y - of_int f in
     if d < 1 / 2 then f else if 1 / 2 < d then f + 1 else if even f then f else f + 1)"

text \<open>The spacing of the doubles around \<open>x\<close>: 53 significant bits, subnormal below \<open>2 ^ - 1022\<close>.\<close>

definition ulp :: "real \<Rightarrow> real" where
  "ulp x = 2 powi (max (ilog2 x) (- 1022) - 52)"

definition overflow_threshold :: real where
  "overflow_threshold = 2 ^ 1024"

definition round_double :: "real \<Rightarrow> jsnum" where
  "round_double x = (if x = 0 then Fin 0 else
     let r = of_int (round_half_even (x / ulp x)) * ulp x in
     if overflow_threshold \<le> \<bar>r\<bar> then (if 0 < x then PInf else NInf) else Fin r)"

text \<open>A real is a double when it is a whole multiple of its own spacing, below the overflow.\<close>

definition is_double :: "real \<Rightarrow> bool" where
  "is_double a = (\<bar>a\<bar> < overflow_threshold \<and> a / ulp a = of_int \<lfloor>a / ulp a\<rfloor>)"

fun js_add :: "jsnum \<Rightarrow> jsnum \<Rightarrow> jsnum" where
  "js_add (Fin x) (Fin y) = round_double (x + y)"
| "js_add NaN b = NaN"
| "js_add a NaN = NaN"
| "js_add PInf NInf = NaN"
| "js_add NInf PInf = NaN"
| "js_add PInf b = PInf"
| "js_add NInf b = NInf"
| "js_add (Fin x) b = b"

fun js_sub :: "jsnum \<Rightarrow> jsnum \<Rightarrow> jsnum" where
  "js_sub (Fin x) (Fin y) = round_double (x - y)"
| "js_sub NaN b = NaN"
| "js_sub a NaN = NaN"
| "js_sub PInf PInf = NaN"
| "js_sub NInf NInf = NaN"
| "js_sub PInf b = PInf"
| "js_sub NInf b = NInf"
| "js_sub (Fin x) PInf = NInf"
| "js_sub (Fin x) NInf = PInf"

text \<open>The sign of a Number as \<open>-1\<close>, \<open>0\<close> or \<open>1\<close>; of not-a-number it is \<open>0\<close>.\<close>

fun js_sign :: "jsnum \<Rightarrow> int" where
  "js_sign NaN = 0"
| "js_sign PInf = 1"
| "js_sign NInf = - 1"
| "js_sign (Fin x) = (if x < 0 then - 1 else if x = 0 then 0 else 1)"

definition signed_inf :: "int \<Rightarrow> jsnum" where
  "signed_inf s = (if s = 0 then NaN else if 0 < s then PInf else NInf)"

fun js_mul :: "jsnum \<Rightarrow> jsnum \<Rightarrow> jsnum" where
  "js_mul (Fin x) (Fin y) = round_double (x * y)"
| "js_mul NaN b = NaN"
| "js_mul a NaN = NaN"
| "js_mul a b = signed_inf (js_sign a * js_sign b)"

fun js_div :: "jsnum \<Rightarrow> jsnum \<Rightarrow> jsnum" where
  "js_div (Fin x) (Fin y) = (if y = 0 then signed_inf (js_sign (Fin x)) else round_double (x / y))"
| "js_div NaN b = NaN"
| "js_div a NaN = NaN"
| "js_div (Fin x) b = Fin 0"
| "js_div a (Fin y) = signed_inf (js_sign a * (if y < 0 then - 1 else 1))"
| "js_div a b = NaN"

text \<open>\<open>Math.min\<close> and \<open>Math.max\<close> of two arguments: not-a-number if either is.\<close>

fun js_le :: "jsnum \<Rightarrow> jsnum \<Rightarrow> bool" where
  "js_le NaN b = False"
| "js_le a NaN = False"
| "js_le NInf b = True"
| "js_le a PInf = True"
| "js_le (Fin x) (Fin y) = (x \<le> y)"
| "js_le a b = False"

definition math_min :: "jsnum \<Rightarrow> jsnum \<Rightarrow> jsnum" where
  "math_min a b = (if a = NaN \<or> b = NaN then NaN else if js_le a b then a else b)"

definition math_max :: "jsnum \<Rightarrow> jsnum \<Rightarrow> jsnum" where
  "math_max a b = (if a = NaN \<or> b = NaN then NaN else if js_le a b then b else a)"

text \<open>\<open>Math.round\<close>: the nearest integer, a tie going towards \<open>+\<infinity>\<close>.\<close>

fun math_round :: "jsnum \<Rightarrow> jsnum" where
  "math_round (Fin x) = Fin (of_int \<lfloor>x + 1 / 2\<rfloor>)"
| "math_round a = a"

text \<open>\<open>Math.sqrt\<close>, correctly rounded as IEEE 754 requires of the square root.\<close>

fun math_sqrt :: "jsnum \<Rightarrow> jsnum" where
  "math_sqrt (Fin x) = (if x < 0 then NaN else round_double (sqrt x))"
| "math_sqrt PInf = PInf"
| "math_sqrt a = NaN"

subsection \<open>Strings\<close>

text \<open>
  A string is a list of code units; the characters here are those of the Latin-1 range. The
  white space that \<open>String.prototype.trim\<close> and the string-to-number conversion strip is, in
  that range, TAB, LF, VT, FF, CR, SP and NBSP.
\<close>

definition is_ws :: "char \<Rightarrow> bool" where
  "is_ws c = (c \<in> set [CHR 0x09, CHR 0x0A, CHR 0x0B, CHR 0x0C, CHR 0x0D, CHR 0x20, CHR 0xA0])"

definition trim :: "string \<Rightarrow> string" where
  "trim s = rev (dropWhile is_ws (rev (dropWhile is_ws s)))"

text \<open>The decimal digits of a non-negative integer.\<close>

function int_digits :: "int \<Rightarrow> string" where
  "int_digits n = (if n < 10 then [char_of (48 + n)]
                   else int_digits (n div 10) @ [char_of (48 + n mod 10)])"
  by pat_completeness auto
termination
proof (relation "measure nat")
  fix n :: int
  assume "\<not> n < 10"
  then have "n div 10 < n" by (simp add: int_div_less_self)
  then show "(n div 10, n) \<in> measure nat" using \<open>\<not> n < 10\<close> by simp
qed simp

subsection \<open>Number to string\<close>

text \<open>
  \<open>Number::toString\<close> in radix 10. For a positive finite \<open>x\<close> it takes the integers \<open>n\<close>,
  \<open>k\<close>, \<open>s\<close> with \<open>10 ^ (k - 1) \<le> s < 10 ^ k\<close> such that \<open>s * 10 ^ (n - k)\<close> rounds to \<open>x\<close>
  and \<open>k\<close> is as small as possible (the closest \<open>s\<close>, the even one on a tie), and lays the
  digits of \<open>s\<close> out by the size of \<open>n\<close>. The search tries \<open>k = 1, 2, \<dots>\<close>; seventeen
  digits identify every double.
\<close>

definition ilog10 :: "real \<Rightarrow> int" where
  "ilog10 x = (if 1 \<le> x then int (digit_count 10 \<lfloor>x\<rfloor>) - 1
               else - int (digit_count 10 (\<lceil>1 / x\<rceil> - 1)))"

definition reads_back :: "real \<Rightarrow> nat \<Rightarrow> int \<times> int \<Rightarrow> bool" where
  "reads_back x k c = (case c of (n, s) \<Rightarrow>
     10 ^ (k - 1) \<le> s \<and> s < 10 ^ k \<and> round_double (of_int s * 10 powi (n - int k)) = Fin x)"

definition digit_candidates :: "real \<Rightarrow> nat \<Rightarrow> (int \<times> int) list" where
  "digit_candidates x k = (let n = ilog10 x + 1; s = \<lfloor>x / 10 powi (n - int k)\<rfloor> in
     filter (reads_back x k) [(n, s), (n, s + 1), (n + 1, 10 ^ (k - 1))])"

definition closer :: "real \<Rightarrow> nat \<Rightarrow> int \<times> int \<Rightarrow> int \<times> int \<Rightarrow> bool" where
  "closer x k c d = (case (c, d) of ((n, s), (n', s')) \<Rightarrow>
     let e = \<bar>of_int s * 10 powi (n - int k) - x\<bar>; e' = \<bar>of_int s' * 10 powi (n' - int k) - x\<bar>
     in e < e' \<or> (e = e' \<and> even s))"

fun pick_closest :: "real \<Rightarrow> nat \<Rightarrow> (int \<times> int) list \<Rightarrow> (int \<times> int) option" where
  "pick_closest x k [] = None"
| "pick_closest x k (c # cs) = (case pick_closest x k cs of
     None \<Rightarrow> Some c
   | Some d \<Rightarrow> Some (if closer x k c d then c else d))"

fun shortest_digits :: "nat \<Rightarrow> nat \<Rightarrow> real \<Rightarrow> int \<times> nat \<times> int" where
  "shortest_digits 0 k x =
     (ilog10 x + 1, k, \<lfloor>x / 10 powi (ilog10 x + 1 - int k)\<rfloor>)"
| "shortest_digits (Suc fuel) k x = (case pick_closest x k (digit_candidates x k) of
     Some (n, s) \<Rightarrow> (n, k, s)
   | None \<Rightarrow> shortest_digits fuel (Suc k) x)"

definition positive_to_string :: "real \<Rightarrow> string" where
  "positive_to_string x = (case shortest_digits 17 1 x of (n, k, s) \<Rightarrow>
     let ds = int_digits s in
     if int k \<le> n \<and> n \<le> 21 then ds @ replicate (nat (n - int k)) CHR ''0''
     else if 0 < n \<and> n \<le> 21 then take (nat n) ds @ ''.'' @ drop (nat n) ds
     else if - 6 < n \<and> n \<le> 0 then ''0.'' @ replicate (nat (- n)) CHR ''0'' @ ds
     else let es = (if n - 1 < 0 then ''-'' else ''+'') @ int_digits \<bar>n - 1\<bar> in
       if k = 1 then ds @ ''e'' @ es else take 1 ds @ ''.'' @ drop 1 ds @ ''e'' @ es)"

fun number_to_string :: "jsnum \<Rightarrow> string" where
  "number_to_string NaN = ''NaN''"
| "number_to_string PInf = ''Infinity''"
| "number_to_string NInf = ''-Infinity''"
| "number_to_string (Fin x) = (if x = 0 then ''0''
     else if x < 0 then ''-'' @ positive_to_string (- x) else positive_to_string x)"

subsection \<open>String to number\<close>

text \<open>
  \<open>StringToNumber\<close>: white space is stripped from both ends; the empty string is \<open>0\<close>; a
  decimal literal (with an optional sign, fraction and exponent, or \<open>Infinity\<close>) or an unsigned
  binary, octal or hexadecimal integer literal is its value rounded to a double; anything else
  is not-a-number. A JSON number literal is read the same way.
\<close>

definition is_digit :: "char \<Rightarrow> bool" where
  "is_digit c = (48 \<le> (of_char c :: int) \<and> (of_char c :: int) \<le> 57)"

definition radix_digit :: "char \<Rightarrow> int option" where
  "radix_digit c = (let n = (of_char c :: int) in
     if 48 \<le> n \<and> n \<le> 57 then Some (n - 48)
     else if 97 \<le> n \<and> n \<le> 102 then Some (n - 87)
     else if 65 \<le> n \<and> n \<le> 70 then Some (n - 55)
     else None)"

fun radix_value :: "int \<Rightarrow> int \<Rightarrow> string \<Rightarrow> int option" where
  "radix_value b acc [] = Some acc"
| "radix_value b acc (c # cs) = (case radix_digit c of
     None \<Rightarrow> None
   | Some d \<Rightarrow> if d < b then radix_value b (b * acc + d) cs else None)"

definition js_neg :: "jsnum \<Rightarrow> jsnum" where
  "js_neg a = (case a of NaN \<Rightarrow> NaN | PInf \<Rightarrow> NInf | NInf \<Rightarrow> PInf | Fin x \<Rightarrow> Fin (- x))"

definition parse_non_decimal :: "string \<Rightarrow> jsnum option" where
  "parse_non_decimal t = (case t of
     c0 # c1 # ds \<Rightarrow>
       let b = (if c1 = CHR ''x'' \<or> c1 = CHR ''X'' then 16
                else if c1 = CHR ''o'' \<or> c1 = CHR ''O'' then 8
                else if c1 = CHR ''b'' \<or> c1 = CHR ''B'' then 2 else (0::int)) in
       if c0 = CHR ''0'' \<and> ds \<noteq> [] \<and> b \<noteq> 0
       then map_option (\<lambda>v. round_double (of_int v)) (radix_value b 0 ds) else None
   | _ \<Rightarrow> None)"

definition parse_signed_digits :: "string \<Rightarrow> int option" where
  "parse_signed_digits r = (let (neg, ds) = (case r of
       c # r' \<Rightarrow> if c = CHR ''-'' then (True, r') else if c = CHR ''+'' then (False, r')
                 else (False, r)
     | [] \<Rightarrow> (False, [])) in
     if ds \<noteq> [] \<and> list_all is_digit ds
     then (case radix_value 10 0 ds of
             Some v \<Rightarrow> Some (if neg then - v else v) | None \<Rightarrow> None)
     else None)"

definition parse_exponent :: "string \<Rightarrow> int option" where
  "parse_exponent r = (case r of
     [] \<Rightarrow> Some 0
   | c # r' \<Rightarrow> if c = CHR ''e'' \<or> c = CHR ''E'' then parse_signed_digits r' else None)"

definition parse_unsigned_decimal :: "string \<Rightarrow> jsnum option" where
  "parse_unsigned_decimal t = (if t = ''Infinity'' then Some PInf else
     let d1 = takeWhile is_digit t; r1 = dropWhile is_digit t;
         (d2, r2) = (case r1 of
            c # r \<Rightarrow> if c = CHR ''.'' then (takeWhile is_digit r, dropWhile is_digit r)
                     else ([], r1)
          | [] \<Rightarrow> ([], [])) in
     if d1 = [] \<and> d2 = [] then None
     else (case (radix_value 10 0 (d1 @ d2), parse_exponent r2) of
             (Some v, Some e) \<Rightarrow> Some (round_double (of_int v * 10 powi (e - int (length d2))))
           | _ \<Rightarrow> None))"

definition parse_numeric :: "string \<Rightarrow> jsnum option" where
  "parse_numeric t = (case parse_non_decimal t of
     Some v \<Rightarrow> Some v
   | None \<Rightarrow> (case t of
       c # r \<Rightarrow> if c = CHR ''-'' then map_option js_neg (parse_unsigned_decimal r)
                else if c = CHR ''+'' then parse_unsigned_decimal r
                else parse_unsigned_decimal t
     | [] \<Rightarrow> None))"

definition string_to_number :: "string \<Rightarrow> jsnum" where
  "string_to_number s = (let t = trim s in
     if t = [] then Fin 0 else (case parse_numeric t of None \<Rightarrow> NaN | Some v \<Rightarrow> v))"

subsection \<open>JSON values and their coercions\<close>

text \<open>
  The value \<open>response.json()\<close> resolves to, and \<open>undefined\<close> for a property that is not
  there. \<open>JObj\<close> lists the own properties of a parsed object. An exception is a value of
  \<open>js_exn\<close>; a computation that can throw returns \<open>js_exn + 'a\<close>, with \<open>Inl\<close> for the throw.
\<close>

datatype jsval =
    JUndefined
  | JNull
  | JBool bool
  | JNum jsnum
  | JStr string
  | JArr "jsval list"
  | JObj "(string \<times> jsval) list"

datatype js_exn = TypeError | SyntaxError | Error string

text \<open>
  \<open>ToString\<close>, as a template literal applies it. An array is its elements joined by commas,
  \<open>null\<close> and \<open>undefined\<close> elements being empty. A parsed object has no callable property of
  its own, so it prints through \<open>Object.prototype.toString\<close> unless an own \<open>toString\<close>
  property hides that method, and then the conversion throws.
\<close>

fun to_string :: "jsval \<Rightarrow> js_exn + string"
  and join_elements :: "jsval list \<Rightarrow> js_exn + string" where
  "to_string JUndefined = Inr ''undefined''"
| "to_string JNull = Inr ''null''"
| "to_string (JBool b) = Inr (if b then ''true'' else ''false'')"
| "to_string (JNum n) = Inr (number_to_string n)"
| "to_string (JStr s) = Inr s"
| "to_string (JArr xs) = join_elements xs"
| "to_string (JObj kvs) =
     (if ''toString'' \<in> set (map fst kvs) then Inl TypeError else Inr ''[object Object]'')"
| "join_elements [] = Inr []"
| "join_elements (x # xs) =
     (case (if x = JUndefined \<or> x = JNull then Inr [] else to_string x) of
        Inl e \<Rightarrow> Inl e
      | Inr s \<Rightarrow> if xs = [] then Inr s
                 else (case join_elements xs of Inl e \<Rightarrow> Inl e | Inr t \<Rightarrow> Inr (s @ '','' @ t)))"

text \<open>\<open>ToNumber\<close>: an array or object is converted through its string.\<close>

fun to_number :: "jsval \<Rightarrow> js_exn + jsnum" where
  "to_number JUndefined = Inr NaN"
| "to_number JNull = Inr (Fin 0)"
| "to_number (JBool b) = Inr (Fin (if b then 1 else 0))"
| "to_number (JNum n) = Inr n"
| "to_number (JStr s) = Inr (string_to_number s)"
| "to_number v = (case to_string v of Inl e \<Rightarrow> Inl e | Inr s \<Rightarrow> Inr (string_to_number s))"

text \<open>
  Reading a property \<open>k\<close> that no prototype defines (the script reads \<open>diagnosis\<close>,
  \<open>confidence\<close> and \<open>recommendation\<close>): of \<open>null\<close> and \<open>undefined\<close> it throws, of an object it
  is the own property or \<open>undefined\<close>, of any other value it is \<open>undefined\<close>.
\<close>

definition own_property :: "(string \<times> jsval) list \<Rightarrow> string \<Rightarrow> jsval" where
  "own_property kvs k = (case map_of kvs k of Some v \<Rightarrow> v | None \<Rightarrow> JUndefined)"

fun get_property :: "jsval \<Rightarrow> string \<Rightarrow> js_exn + jsval" where
  "get_property JUndefined k = Inl TypeError"
| "get_property JNull k = Inl TypeError"
| "get_property (JObj kvs) k = Inr (own_property kvs k)"
| "get_property v k = Inr JUndefined"

text \<open>The values that are not objects: their conversions never throw.\<close>

fun is_primitive :: "jsval \<Rightarrow> bool" where
  "is_primitive (JArr xs) = False"
| "is_primitive (JObj kvs) = False"
| "is_primitive v = True"

definition bind_exn :: "js_exn + 'a \<Rightarrow> ('a \<Rightarrow> js_exn + 'b) \<Rightarrow> js_exn + 'b" where
  "bind_exn m f = (case m of Inl e \<Rightarrow> Inl e | Inr x \<Rightarrow> f x)"

subsection \<open>The page and the effects of the script on it\<close>

text \<open>
  The elements the script looks up by id, the request \<open>fetch\<close> sends, and the effects of the
  script in program order. A page holds what the effects change.
\<close>

datatype element = SearchInput | SearchBtn | ResultContainer | ResultsList

record request =
  req_url :: string
  req_method :: string
  req_headers :: "(string \<times> string) list"
  req_body :: string

datatype effect =
    ClassAdd element string
  | ClassRemove element string
  | SetInnerHTML element string
  | SetValue element string
  | Fetch request
  | ConsoleError string js_exn

record page =
  classes :: "element \<Rightarrow> string set"
  inner_html :: "element \<Rightarrow> string"
  input_value :: "element \<Rightarrow> string"
  sent :: "request list"
  console :: "(string \<times> js_exn) list"

fun apply_effect :: "page \<Rightarrow> effect \<Rightarrow> page" where
  "apply_effect p (ClassAdd e c) = p\<lparr>classes := (classes p)(e := insert c (classes p e))\<rparr>"
| "apply_effect p (ClassRemove e c) = p\<lparr>classes := (classes p)(e := classes p e - {c})\<rparr>"
| "apply_effect p (SetInnerHTML e h) = p\<lparr>inner_html := (inner_html p)(e := h)\<rparr>"
| "apply_effect p (SetValue e v) = p\<lparr>input_value := (input_value p)(e := v)\<rparr>"
| "apply_effect p (Fetch r) = p\<lparr>sent := sent p @ [r]\<rparr>"
| "apply_effect p (ConsoleError m e) = p\<lparr>console := console p @ [(m, e)]\<rparr>"

definition run_effects :: "page \<Rightarrow> effect list \<Rightarrow> page" where
  "run_effects p es = foldl apply_effect p es"

text \<open>A page on which nothing has been set.\<close>

definition blank_page :: page where
  "blank_page = \<lparr>classes = (\<lambda>e. {}), inner_html = (\<lambda>e. []), input_value = (\<lambda>e. []),
     sent = [], console = []\<rparr>"

definition requests_of :: "effect list \<Rightarrow> request list" where
  "requests_of es = concat (map (\<lambda>e. case e of Fetch r \<Rightarrow> [r] | _ \<Rightarrow> []) es)"

subsection \<open>\<open>JSON.stringify\<close> of the query\<close>

text \<open>\<open>JSON.stringify({ symptoms: symptoms })\<close> for a string \<open>symptoms\<close>.\<close>

definition hex_digit :: "nat \<Rightarrow> char" where
  "hex_digit n = (if n < 10 then char_of (48 + n) else char_of (87 + n))"

definition json_escape :: "char \<Rightarrow> string" where
  "json_escape c = (let n = (of_char c :: nat) in
     if n = 0x22 then [CHR 0x5C, CHR 0x22]
     else if n = 0x5C then [CHR 0x5C, CHR 0x5C]
     else if n = 0x08 then [CHR 0x5C, CHR ''b'']
     else if n = 0x0C then [CHR 0x5C, CHR ''f'']
     else if n = 0x0A then [CHR 0x5C, CHR ''n'']
     else if n = 0x0D then [CHR 0x5C, CHR ''r'']
     else if n = 0x09 then [CHR 0x5C, CHR ''t'']
     else if n < 0x20 then [CHR 0x5C] @ ''u00'' @ [hex_digit (n div 16), hex_digit (n mod 16)]
     else [c])"

text \<open>The characters \<open>JSON.stringify\<close> copies as they are.\<close>

definition json_plain :: "char \<Rightarrow> bool" where
  "json_plain c = (let n = (of_char c :: nat) in 0x20 \<le> n \<and> n \<noteq> 0x22 \<and> n \<noteq> 0x5C)"

definition json_quote :: "string \<Rightarrow> string" where
  "json_quote s = [CHR 0x22] @ concat (map json_escape s) @ [CHR 0x22]"

definition stringify_query :: "string \<Rightarrow> string" where
  "stringify_query symptoms = ''{'' @ json_quote ''symptoms'' @ '':'' @ json_quote symptoms @ ''}''"

subsection \<open>\<open>displayResults\<close>\<close>

text \<open>The markup the script writes; a line of the template literal ends with a line feed.\<close>

definition searching_html :: string where
  \<open>searching_html = ''<div class="text-center text-gray-500">Searching...</div>''\<close>

definition error_html :: string where
  \<open>error_html = ''<div class="bg-red-100 text-red-700 p-4 rounded-lg">An error occurred. Please try again later.</div>''\<close>

definition html_line :: "nat \<Rightarrow> string \<Rightarrow> string" where
  "html_line indent s = replicate indent CHR '' '' @ s @ [CHR 0x0A]"

definition diagnosis_block :: "string \<Rightarrow> string \<Rightarrow> string" where
  \<open>diagnosis_block diagnosis percent =
     html_line 12 ''<div class="bg-blue-100 border border-blue-400 text-blue-800 px-4 py-3 rounded-md mb-4">'' @
     html_line 16 (''<!-- Show the AI'' @ [CHR 0x27] @ ''s diagnosis for the symptoms -->'') @
     html_line 16 (''<p class="font-bold">Possible Diagnosis: '' @ diagnosis @ ''</p>'') @
     html_line 16 ''<!-- Show confidence as percentage (0-100%) -->'' @
     html_line 16 (''<p class="text-sm">Confidence: '' @ percent @ ''%</p>'') @
     html_line 12 ''</div>''\<close>

definition recommendation_block :: "string \<Rightarrow> string" where
  \<open>recommendation_block recommendation =
     html_line 12 ''<div class="bg-green-100 border border-green-400 text-green-800 px-4 py-3 rounded-md">'' @
     html_line 16 ''<!-- Header for next steps -->'' @
     html_line 16 ''<p class="font-bold">Next Steps:</p>'' @
     html_line 16 ''<!-- Show the recommended action/treatment -->'' @
     html_line 16 (''<p>'' @ recommendation @ ''</p>'') @
     html_line 12 ''</div>''\<close>

definition results_template :: "string \<Rightarrow> string \<Rightarrow> string \<Rightarrow> string" where
  \<open>results_template diagnosis percent recommendation =
     [CHR 0x0A] @
     html_line 12 ''<!-- Diagnosis Information Box -->'' @
     diagnosis_block diagnosis percent @
     html_line 12 [] @
     html_line 12 ''<!-- Recommendations Information Box -->'' @
     recommendation_block recommendation @
     replicate 8 CHR '' ''\<close>

text \<open>\<open>Math.round(data.confidence * 100)\<close>, as the template literal prints it.\<close>

definition confidence_percent :: "jsnum \<Rightarrow> string" where
  "confidence_percent confidence = number_to_string (math_round (js_mul confidence (Fin 100)))"

text \<open>
  \<open>displayResults(data)\<close>: the template literal reads and converts the three properties from
  left to right, then the result is assigned to \<open>resultsList.innerHTML\<close>. A throw in the
  template leaves the page as it is.
\<close>

definition displayResults :: "jsval \<Rightarrow> js_exn + effect list" where
  "displayResults data =
     bind_exn (get_property data ''diagnosis'') (\<lambda>dv.
     bind_exn (to_string dv) (\<lambda>diagnosis.
     bind_exn (get_property data ''confidence'') (\<lambda>cv.
     bind_exn (to_number cv) (\<lambda>confidence.
     let percent = confidence_percent confidence in
     bind_exn (get_property data ''recommendation'') (\<lambda>rv.
     bind_exn (to_string rv) (\<lambda>recommendation.
     Inr [SetInnerHTML ResultsList (results_template diagnosis percent recommendation)]))))))"

text \<open>
  The response the script documents: an object with a \<open>diagnosis\<close> string, a \<open>confidence\<close>
  number and a \<open>recommendation\<close> string.
\<close>

definition diagnosis_result :: "string \<Rightarrow> jsnum \<Rightarrow> string \<Rightarrow> jsval" where
  "diagnosis_result diagnosis confidence recommendation =
     JObj [(''diagnosis'', JStr diagnosis), (''confidence'', JNum confidence),
           (''recommendation'', JStr recommendation)]"

subsection \<open>\<open>fetchSymptoms\<close>\<close>

text \<open>
  What the network does with the request: \<open>fetch\<close> rejects with an exception, or resolves to
  a response with a status whose \<open>json()\<close> rejects (the body is not JSON) or resolves to a
  value. \<open>response.ok\<close> is a status from 200 to 299.
\<close>

datatype body_result = JsonRejected js_exn | JsonParsed jsval

datatype fetch_outcome = FetchRejected js_exn | Responded nat body_result

definition response_ok :: "nat \<Rightarrow> bool" where
  "response_ok status = (200 \<le> status \<and> status \<le> 299)"

definition symptom_request :: "string \<Rightarrow> request" where
  "symptom_request symptoms = \<lparr>
     req_url = ''http://127.0.0.1:8000/check-symptoms'',
     req_method = ''POST'',
     req_headers = [(''Content-Type'', ''application/json'')],
     req_body = stringify_query symptoms\<rparr>"

text \<open>The \<open>try\<close> block after the request has been sent: the exception it throws, or its effects.\<close>

definition fetchSymptoms_try :: "fetch_outcome \<Rightarrow> js_exn + effect list" where
  "fetchSymptoms_try outcome = (case outcome of
     FetchRejected e \<Rightarrow> Inl e
   | Responded status body \<Rightarrow>
       if \<not> response_ok status
       then Inl (Error (''HTTP error! status: '' @ int_digits (int status)))
       else (case body of
               JsonRejected e \<Rightarrow> Inl e
             | JsonParsed data \<Rightarrow> displayResults data))"

definition fetchSymptoms :: "string \<Rightarrow> fetch_outcome \<Rightarrow> effect list" where
  "fetchSymptoms symptoms outcome =
     [ClassAdd ResultContainer ''hidden'',
      SetInnerHTML ResultsList searching_html,
      Fetch (symptom_request symptoms)] @
     (case fetchSymptoms_try outcome of
        Inr effects \<Rightarrow> effects
      | Inl error \<Rightarrow> [ConsoleError ''Error fetching data:'' error,
                      SetInnerHTML ResultsList error_html]) @
     [ClassRemove ResultContainer ''hidden'']"

subsection \<open>The click handlers\<close>

text \<open>
  The handler of the search button reads the input field of the page; the handler of a symptom
  tag is given the \<open>textContent\<close> of its tag.
\<close>

definition searchBtn_click :: "page \<Rightarrow> fetch_outcome \<Rightarrow> effect list" where
  "searchBtn_click p outcome = (let symptoms = trim (input_value p SearchInput) in
     if symptoms \<noteq> [] then fetchSymptoms symptoms outcome else [])"

definition symptomTag_click :: "string \<Rightarrow> fetch_outcome \<Rightarrow> effect list" where
  "symptomTag_click textContent outcome = (let symptoms = textContent in
     SetValue SearchInput symptoms # fetchSymptoms symptoms outcome)"

subsection \<open>The tilt and glare effect: \<open>initTiltCards\<close>\<close>

text \<open>
  A card holds what the script keeps and sets on it: the \<open>data-tilt-init\<close> mark, whether the
  six listeners are attached, the variable \<open>rect\<close> of the closure (\<open>None\<close> is \<open>null\<close>), and the
  style properties the handlers write (\<open>None\<close>: not written yet). The transform
  \<open>perspective(1000px) rotateX(a deg) rotateY(b deg) scale(s)\<close> is \<open>Tilt a b s\<close>; the custom
  properties \<open>--px\<close> and \<open>--py\<close> are percentages and \<open>--g\<close> is a number, kept as numbers.
\<close>

record rect =
  rect_left :: jsnum
  rect_top :: jsnum
  rect_width :: jsnum
  rect_height :: jsnum

datatype tilt = Tilt jsnum jsnum real

record card =
  tiltInit :: bool
  listening :: bool
  cached_rect :: "rect option"
  style_transform :: "tilt option"
  style_transition :: "string option"
  style_boxShadow :: "string option"
  var_px :: "jsnum option"
  var_py :: "jsnum option"
  var_g :: "jsnum option"

text \<open>
  A \<open>mousemove\<close> carries \<open>clientX\<close> and \<open>clientY\<close>; a \<open>touchmove\<close> has neither and carries its
  list of touches. \<open>e.clientX ?? (e.touches && e.touches[0] && e.touches[0].clientX)\<close> is
  \<open>undefined\<close> for a touch event without a touch, and the subtraction that follows converts
  \<open>undefined\<close> to not-a-number.
\<close>

datatype pointer_event = MouseEvent jsnum jsnum | TouchEvent "(jsnum \<times> jsnum) list"

fun event_clientX :: "pointer_event \<Rightarrow> jsnum option" where
  "event_clientX (MouseEvent x y) = Some x"
| "event_clientX (TouchEvent []) = None"
| "event_clientX (TouchEvent (t # ts)) = Some (fst t)"

fun event_clientY :: "pointer_event \<Rightarrow> jsnum option" where
  "event_clientY (MouseEvent x y) = Some y"
| "event_clientY (TouchEvent []) = None"
| "event_clientY (TouchEvent (t # ts)) = Some (snd t)"

definition number_of :: "jsnum option \<Rightarrow> jsnum" where
  "number_of v = (case v of None \<Rightarrow> NaN | Some n \<Rightarrow> n)"

definition clamp :: "jsnum \<Rightarrow> jsnum" where
  "clamp v = math_max (Fin 0) (math_min (Fin 1) v)"

text \<open>A Number that is finite and lies between two bounds.\<close>

definition in_range :: "real \<Rightarrow> real \<Rightarrow> jsnum \<Rightarrow> bool" where
  "in_range lo hi v = (case v of Fin x \<Rightarrow> lo \<le> x \<and> x \<le> hi | _ \<Rightarrow> False)"

text \<open>The pointer position relative to the rectangle, each coordinate as a fraction of its side.\<close>

definition normalized_x :: "pointer_event \<Rightarrow> rect \<Rightarrow> jsnum" where
  "normalized_x e r = js_div (js_sub (number_of (event_clientX e)) (rect_left r)) (rect_width r)"

definition normalized_y :: "pointer_event \<Rightarrow> rect \<Rightarrow> jsnum" where
  "normalized_y e r = js_div (js_sub (number_of (event_clientY e)) (rect_top r)) (rect_height r)"

definition rotation_Y :: "jsnum \<Rightarrow> jsnum" where
  "rotation_Y cx = js_mul (js_sub cx (Fin (1 / 2))) (Fin 20)"

definition rotation_X :: "jsnum \<Rightarrow> jsnum" where
  "rotation_X cy = js_mul (js_sub (Fin (1 / 2)) cy) (Fin 20)"

definition glare :: "jsnum \<Rightarrow> jsnum \<Rightarrow> jsnum" where
  "glare cx cy = (let dx = js_sub cx (Fin (1 / 2)); dy = js_sub cy (Fin (1 / 2));
       dist = math_sqrt (js_add (js_mul dx dx) (js_mul dy dy))
     in math_max (Fin 0) (math_min (Fin 1) (js_sub (Fin 1) (js_mul dist (Fin (3 / 2))))))"

text \<open>
  \<open>handleMove(e)\<close>; \<open>bounding\<close> is what \<open>card.getBoundingClientRect()\<close> returns at that moment,
  read only when \<open>rect\<close> is \<open>null\<close>.
\<close>

definition handleMove :: "pointer_event \<Rightarrow> rect \<Rightarrow> card \<Rightarrow> card" where
  "handleMove e bounding c =
     (let r = (case cached_rect c of Some r \<Rightarrow> r | None \<Rightarrow> bounding);
          cx = clamp (normalized_x e r);
          cy = clamp (normalized_y e r)
      in c\<lparr>cached_rect := Some r,
            style_transform := Some (Tilt (rotation_X cy) (rotation_Y cx) (103 / 100)),
            var_px := Some (js_mul cx (Fin 100)),
            var_py := Some (js_mul cy (Fin 100)),
            var_g := Some (glare cx cy)\<rparr>)"

definition handleEnter :: "rect \<Rightarrow> card \<Rightarrow> card" where
  "handleEnter bounding c =
     c\<lparr>cached_rect := Some bounding,
       style_transition := Some ''transform 150ms cubic-bezier(.2,.9,.2,1), box-shadow 150ms'',
       style_boxShadow := Some ''0 20px 40px rgba(2,6,23,0.35)''\<rparr>"

definition handleLeave :: "card \<Rightarrow> card" where
  "handleLeave c =
     c\<lparr>style_transition := Some ''transform 600ms cubic-bezier(.2,.9,.2,1), box-shadow 600ms'',
       style_transform := Some (Tilt (Fin 0) (Fin 0) 1),
       style_boxShadow := Some [],
       var_g := Some (Fin 0),
       cached_rect := None\<rparr>"

text \<open>The body of the \<open>forEach\<close> in \<open>initTiltCards\<close>, and the function itself on the matched cards.\<close>

definition initTiltCard :: "card \<Rightarrow> card" where
  "initTiltCard c = (if tiltInit c then c else
     c\<lparr>tiltInit := True,
       var_px := Some (Fin 50),
       var_py := Some (Fin 50),
       var_g := Some (Fin 0),
       cached_rect := None,
       listening := True\<rparr>)"

definition initTiltCards :: "card list \<Rightarrow> card list" where
  "initTiltCards cards = map initTiltCard cards"

text \<open>
  The events of a card: \<open>mousemove\<close> and \<open>touchmove\<close> go to \<open>handleMove\<close>, \<open>mouseenter\<close> and
  \<open>touchstart\<close> to \<open>handleEnter\<close>, \<open>mouseleave\<close> and \<open>touchend\<close> to \<open>handleLeave\<close>; a card
  without listeners ignores them.
\<close>

datatype card_event = Move pointer_event | Enter | Leave

definition card_dispatch :: "card_event \<Rightarrow> rect \<Rightarrow> card \<Rightarrow> card" where
  "card_dispatch ev bounding c = (if \<not> listening c then c else
     (case ev of
        Move e \<Rightarrow> handleMove e bounding c
      | Enter \<Rightarrow> handleEnter bounding c
      | Leave \<Rightarrow> handleLeave c))"

subsection \<open>The periodic hero animation: \<open>periodicHeroAnimation\<close>\<close>

text \<open>
  The part of the page the animation touches: the class list of the element matching
  \<open>.hero-gradient\<close> (\<open>None\<close>: no such element), the pending timeouts and the running intervals
  with their delays, whether the \<open>beforeunload\<close> listener is registered, and how many times
  \<open>classList.add('hero-animate')\<close> has run. Timers fire in any order here, which covers the
  order the delays give.
\<close>

datatype callback = PlayOnce | RemoveAnimate

record hero_page =
  hero_classes :: "string set option"
  timeouts :: "(nat \<times> callback) list"
  intervals :: "(nat \<times> callback) list"
  unload_clears :: bool
  class_added :: nat

definition playOnce :: "hero_page \<Rightarrow> hero_page" where
  "playOnce p = (case hero_classes p of
     None \<Rightarrow> p
   | Some cs \<Rightarrow> p\<lparr>hero_classes := Some (insert ''hero-animate'' (cs - {''hero-animate''})),
                  class_added := class_added p + 1,
                  timeouts := timeouts p @ [(1200, RemoveAnimate)]\<rparr>)"

definition removeAnimate :: "hero_page \<Rightarrow> hero_page" where
  "removeAnimate p = p\<lparr>hero_classes := map_option (\<lambda>cs. cs - {''hero-animate''}) (hero_classes p)\<rparr>"

fun run_callback :: "callback \<Rightarrow> hero_page \<Rightarrow> hero_page" where
  "run_callback PlayOnce p = playOnce p"
| "run_callback RemoveAnimate p = removeAnimate p"

definition periodicHeroAnimation :: "bool \<Rightarrow> hero_page \<Rightarrow> hero_page" where
  "periodicHeroAnimation prefersReduce p =
     (if prefersReduce then p
      else if hero_classes p = None then p
      else p\<lparr>timeouts := timeouts p @ [(220, PlayOnce)],
              intervals := intervals p @ [(10000, PlayOnce)],
              unload_clears := True\<rparr>)"

text \<open>
  What happens after the script has run: the \<open>i\<close>-th pending timeout fires and is gone, the
  \<open>i\<close>-th interval fires and stays, or the page unloads and the listener clears the interval.
\<close>

datatype page_event = TimeoutFires nat | IntervalFires nat | BeforeUnload

fun page_step :: "hero_page \<Rightarrow> page_event \<Rightarrow> hero_page" where
  "page_step p (TimeoutFires i) = (if i < length (timeouts p)
     then run_callback (snd (timeouts p ! i))
            (p\<lparr>timeouts := take i (timeouts p) @ drop (Suc i) (timeouts p)\<rparr>)
     else p)"
| "page_step p (IntervalFires i) = (if i < length (intervals p)
     then run_callback (snd (intervals p ! i)) p else p)"
| "page_step p BeforeUnload = (if unload_clears p then p\<lparr>intervals := []\<rparr> else p)"

definition run_events :: "hero_page \<Rightarrow> page_event list \<Rightarrow> hero_page" where
  "run_events p evs = foldl page_step p evs"

definition fresh_page :: "string set option \<Rightarrow> hero_page" where
  "fresh_page cs = \<lparr>hero_classes = cs, timeouts = [], intervals = [],
     unload_clears = False, class_added = 0\<rparr>"

section \<open>Properties of the arithmetic\<close>

text \<open>
  The recursive equations of \<open>digit_count\<close> and \<open>int_digits\<close> are used by evaluation only.
  The overflow threshold is given to evaluation as a numeral.
\<close>

declare digit_count.simps [simp del]

declare int_digits.simps [simp del]

lemma overflow_threshold_numeral [code]:
  "overflow_threshold = 179769313486231590772930519078902473361797697894230657273430081157732675805500963132708477322407536021120113879871393357658789768814416622492847430639474124377767893424865485276302219601246094119453082952085005768838150682342462881473913110540827237163350510684586298239947245938479716304835356329624224137216"
  by (simp add: overflow_threshold_def)

lemma digit_count_floorlog: "digit_count b n = floorlog (nat b) (nat n)"
proof (induction b n rule: digit_count.induct)
  case (1 b n)
  show ?case
  proof (cases "n \<le> 0 \<or> b \<le> 1")
    case True
    then show ?thesis by (auto simp: digit_count.simps[of b n] floorlog_def)
  next
    case False
    then have pos: "0 < nat n" "1 < nat b" by auto
    have "digit_count b n = Suc (digit_count b (n div b))"
      using False by (simp add: digit_count.simps[of b n])
    also have "\<dots> = Suc (floorlog (nat b) (nat (n div b)))"
      using 1 False by simp
    also have "nat (n div b) = nat n div nat b"
      using False by (simp add: nat_div_distrib)
    also have "Suc (floorlog (nat b) (nat n div nat b)) = floorlog (nat b) (nat n)"
      using pos by (simp add: compute_floorlog[of "nat b" "nat n"])
    finally show ?thesis .
  qed
qed

lemma ilog2_bounds_ge1:
  assumes "1 \<le> \<bar>x\<bar>"
  shows "2 powi (ilog2 x) \<le> \<bar>x\<bar> \<and> \<bar>x\<bar> < 2 powi (ilog2 x + 1)"
proof -
  define n where "n = nat \<lfloor>\<bar>x\<bar>\<rfloor>"
  define k where "k = floorlog 2 n"
  have n1: "1 \<le> n" using assms by (simp add: n_def le_nat_floor)
  have b: "2 ^ (k - 1) \<le> n \<and> n < 2 ^ k"
    using floorlog_bounds[of n 2] n1 by (simp add: k_def)
  have k1: "1 \<le> k" using n1 by (simp add: k_def floorlog_def)
  have e: "ilog2 x = int k - 1"
    using assms by (simp add: ilog2_def n_def k_def digit_count_floorlog)
  have "real n = of_int \<lfloor>\<bar>x\<bar>\<rfloor>" by (simp add: n_def)
  then have nx: "real n \<le> \<bar>x\<bar>" "\<bar>x\<bar> < real n + 1"
    by linarith+
  have lo: "(2::real) ^ (k - 1) \<le> real n" using b
    by (metis of_nat_le_iff of_nat_numeral of_nat_power)
  have hi: "real n + 1 \<le> 2 ^ k"
  proof -
    have "n + 1 \<le> 2 ^ k" using b by simp
    then have "real (n + 1) \<le> real (2 ^ k)" by (rule iffD2[OF of_nat_le_iff])
    then show ?thesis by simp
  qed
  have E1: "(2::real) powi (ilog2 x) = 2 ^ (k - 1)"
    using k1 e by (simp add: power_int_def nat_diff_distrib')
  have E2: "(2::real) powi (ilog2 x + 1) = 2 ^ k" using e by simp
  show ?thesis unfolding E1 E2 using lo hi nx by linarith
qed

lemma ilog2_bounds_lt1:
  assumes "\<bar>x\<bar> < 1" "x \<noteq> 0"
  shows "2 powi (ilog2 x) \<le> \<bar>x\<bar> \<and> \<bar>x\<bar> < 2 powi (ilog2 x + 1)"
proof -
  define y where "y = 1 / \<bar>x\<bar>"
  define m where "m = nat (\<lceil>y\<rceil> - 1)"
  define k where "k = floorlog 2 m"
  have y1: "1 < y" using assms by (simp add: y_def)
  have ypos: "0 < y" using y1 by simp
  have cy: "2 \<le> \<lceil>y\<rceil>" using y1 by linarith
  have m1: "1 \<le> m" using cy unfolding m_def by linarith
  have "real m = of_int \<lceil>y\<rceil> - 1" using cy by (simp add: m_def)
  then have my: "real m < y" "y \<le> real m + 1"
    by linarith+
  have b: "2 ^ (k - 1) \<le> m \<and> m < 2 ^ k"
    using floorlog_bounds[of m 2] m1 by (simp add: k_def)
  have k1: "1 \<le> k" using m1 by (simp add: k_def floorlog_def)
  have e: "ilog2 x = - int k"
    using assms by (simp add: ilog2_def m_def k_def y_def digit_count_floorlog)
  have lo: "(2::real) ^ (k - 1) \<le> real m" using b
    by (metis of_nat_le_iff of_nat_numeral of_nat_power)
  have hi: "real m + 1 \<le> 2 ^ k"
  proof -
    have "m + 1 \<le> 2 ^ k" using b by simp
    then have "real (m + 1) \<le> real (2 ^ k)" by (rule iffD2[OF of_nat_le_iff])
    then show ?thesis by simp
  qed
  have xy: "\<bar>x\<bar> = 1 / y" using assms by (simp add: y_def)
  have p1: "(2::real) powi (- int k) = 1 / 2 ^ k"
    by (simp add: power_int_minus field_simps)
  have p2: "(2::real) powi (- int k + 1) = 1 / 2 ^ (k - 1)"
  proof -
    have "- int k + 1 = - int (k - 1)" using k1 by simp
    then show ?thesis by (simp only: power_int_minus power_int_of_nat) (simp add: field_simps)
  qed
  have "1 / 2 ^ k \<le> 1 / y" using hi my ypos by (simp add: frac_le)
  moreover have "1 / y < 1 / 2 ^ (k - 1)" using lo my
    by (smt (verit) frac_less2 zero_less_power)
  ultimately show ?thesis unfolding e xy p1 p2 by simp
qed

lemma ilog2_bounds:
  "x \<noteq> 0 \<Longrightarrow> 2 powi (ilog2 x) \<le> \<bar>x\<bar> \<and> \<bar>x\<bar> < 2 powi (ilog2 x + 1)"
  using ilog2_bounds_ge1[of x] ilog2_bounds_lt1[of x] by (cases "1 \<le> \<bar>x\<bar>") auto

lemma pow2_le: "a \<le> b \<Longrightarrow> (2::real) powi a \<le> 2 powi b"
  by (rule power_int_increasing) simp_all

lemma ilog2_unique:
  assumes "2 powi e \<le> \<bar>x\<bar>" "\<bar>x\<bar> < 2 powi (e + 1)"
  shows "ilog2 x = e"
proof -
  have p: "(0::real) < 2 powi e" by simp
  have x0: "x \<noteq> 0"
  proof
    assume "x = 0"
    then have "2 powi e \<le> (0::real)" using assms(1) by simp
    then show False using p by linarith
  qed
  note b = ilog2_bounds[OF x0]
  have "\<not> ilog2 x < e"
  proof
    assume "ilog2 x < e"
    then have "(2::real) powi (ilog2 x + 1) \<le> 2 powi e" by (intro pow2_le) simp
    then show False using b assms by linarith
  qed
  moreover have "\<not> e < ilog2 x"
  proof
    assume "e < ilog2 x"
    then have "(2::real) powi (e + 1) \<le> 2 powi (ilog2 x)" by (intro pow2_le) simp
    then show False using b assms by linarith
  qed
  ultimately show ?thesis by simp
qed

lemma ilog2_mono:
  assumes "x \<noteq> 0" "\<bar>x\<bar> \<le> \<bar>y\<bar>"
  shows "ilog2 x \<le> ilog2 y"
proof (rule ccontr)
  assume "\<not> ilog2 x \<le> ilog2 y"
  then have "(2::real) powi (ilog2 y + 1) \<le> 2 powi (ilog2 x)" by (intro pow2_le) simp
  moreover have "y \<noteq> 0" using assms by auto
  ultimately show False using ilog2_bounds[OF assms(1)] ilog2_bounds[of y] assms(2) by linarith
qed

lemma ilog2_minus: "ilog2 (- x) = ilog2 x"
  by (simp add: ilog2_def)

lemma ulp_minus: "ulp (- x) = ulp x"
  by (simp add: ulp_def ilog2_minus)

lemma ulp_pos: "0 < ulp x"
  by (simp add: ulp_def)

lemma ulp_ratio:
  assumes "x \<noteq> 0" "\<bar>x\<bar> \<le> \<bar>y\<bar>"
  shows "\<exists>n::nat. ulp y = 2 ^ n * ulp x"
proof -
  define ex where "ex = max (ilog2 x) (- 1022) - 52"
  define ey where "ey = max (ilog2 y) (- 1022) - 52"
  have le: "ex \<le> ey" using ilog2_mono[OF assms] by (simp add: ex_def ey_def)
  have "(2::real) powi ey = 2 powi (int (nat (ey - ex)) + ex)" using le by simp
  also have "\<dots> = 2 powi (int (nat (ey - ex))) * 2 powi ex"
    by (rule power_int_add) simp
  also have "\<dots> = 2 ^ nat (ey - ex) * 2 powi ex"
    by (simp only: power_int_of_nat)
  finally show ?thesis unfolding ulp_def ex_def ey_def by blast
qed

lemma is_double_mult: "is_double a \<Longrightarrow> \<exists>m::int. a = of_int m * ulp a"
proof -
  assume "is_double a"
  then have "a / ulp a = of_int \<lfloor>a / ulp a\<rfloor>" by (simp add: is_double_def)
  then have "a = of_int \<lfloor>a / ulp a\<rfloor> * ulp a" using ulp_pos[of a]
    by (metis less_irrefl nonzero_eq_divide_eq)
  then show ?thesis by blast
qed

lemma is_double_minus: "is_double a \<Longrightarrow> is_double (- a)"
proof -
  assume a: "is_double a"
  then obtain m :: int where m: "a = of_int m * ulp a" using is_double_mult by blast
  have "- a / ulp (- a) = of_int (- m)" using m ulp_pos[of a]
    by (simp add: ulp_minus) (metis less_irrefl nonzero_eq_divide_eq)
  then have "- a / ulp (- a) = of_int \<lfloor>- a / ulp (- a)\<rfloor>" by simp
  then show ?thesis using a by (simp add: is_double_def)
qed

lemma coarser_multiple:
  assumes "is_double a" "x \<noteq> 0" "\<bar>x\<bar> \<le> \<bar>a\<bar>"
  shows "\<exists>n::int. a = of_int n * ulp x"
proof -
  obtain m :: int where m: "a = of_int m * ulp a" using assms(1) is_double_mult by blast
  obtain j :: nat where j: "ulp a = 2 ^ j * ulp x" using ulp_ratio[OF assms(2,3)] by blast
  have "a = of_int (m * 2 ^ j) * ulp x" using m j by simp
  then show ?thesis by blast
qed

lemma pow2_52_ulp:
  assumes "- 1022 \<le> ilog2 x"
  shows "of_int (2 ^ 52) * ulp x = 2 powi (ilog2 x)"
proof -
  have "ulp x = 2 powi (ilog2 x - 52)" using assms by (simp add: ulp_def max_def)
  also have "\<dots> = 2 powi (ilog2 x) / 2 powi 52" by (rule power_int_diff) simp
  finally show ?thesis by simp
qed

lemma grid_between_lower:
  assumes a: "is_double a" and ax: "a \<le> x" and x0: "x \<noteq> 0"
  shows "\<exists>n::int. a \<le> of_int n * ulp x \<and> of_int n * ulp x \<le> x"
proof -
  consider "a \<le> 0 \<and> 0 < x" | "0 < a" | "x < 0" using x0 by linarith
  then show ?thesis
  proof cases
    case 1
    then have "a \<le> of_int 0 * ulp x \<and> of_int 0 * ulp x \<le> x" by simp
    then show ?thesis by blast
  next
    case 2
    then have xpos: "0 < x" and a0: "a \<noteq> 0" and le: "\<bar>a\<bar> \<le> \<bar>x\<bar>" using ax by auto
    have el: "ilog2 a \<le> ilog2 x" by (rule ilog2_mono[OF a0 le])
    show ?thesis
    proof (cases "max (ilog2 a) (- 1022) = max (ilog2 x) (- 1022)")
      case True
      then have "ulp a = ulp x" by (simp add: ulp_def)
      then obtain m :: int where "a = of_int m * ulp x" using is_double_mult[OF a] by auto
      then show ?thesis using ax by blast
    next
      case False
      then have big: "- 1022 \<le> ilog2 x" and lt: "ilog2 a < ilog2 x" using el by linarith+
      have "a < 2 powi (ilog2 a + 1)" using ilog2_bounds[OF a0] 2 by simp
      also have "\<dots> \<le> 2 powi (ilog2 x)" using lt by (intro pow2_le) simp
      finally have "a \<le> 2 powi (ilog2 x)" by simp
      moreover have "2 powi (ilog2 x) \<le> x" using ilog2_bounds[OF x0] xpos by simp
      ultimately have "a \<le> of_int (2 ^ 52) * ulp x \<and> of_int (2 ^ 52) * ulp x \<le> x"
        by (simp only: pow2_52_ulp[OF big])
      then show ?thesis by blast
    qed
  next
    case 3
    then have "\<bar>x\<bar> \<le> \<bar>a\<bar>" using ax by simp
    then obtain n :: int where "a = of_int n * ulp x" using coarser_multiple[OF a x0] by blast
    then show ?thesis using ax by blast
  qed
qed

lemma grid_between_upper:
  assumes b: "is_double b" and xb: "x \<le> b" and x0: "x \<noteq> 0"
  shows "\<exists>n::int. x \<le> of_int n * ulp x \<and> of_int n * ulp x \<le> b"
proof -
  have "\<exists>n::int. - b \<le> of_int n * ulp (- x) \<and> of_int n * ulp (- x) \<le> - x"
    by (rule grid_between_lower[OF is_double_minus[OF b]]) (use xb x0 in auto)
  then obtain n :: int where n: "- b \<le> of_int n * ulp x" "of_int n * ulp x \<le> - x"
    by (auto simp: ulp_minus)
  then have "x \<le> of_int (- n) * ulp x \<and> of_int (- n) * ulp x \<le> b" by simp
  then show ?thesis by blast
qed

lemma rne_ge: "of_int n \<le> y \<Longrightarrow> n \<le> round_half_even y"
proof -
  assume "of_int n \<le> y"
  then have "n \<le> \<lfloor>y\<rfloor>" by (simp add: le_floor_iff)
  then show ?thesis by (simp add: round_half_even_def Let_def)
qed

lemma rne_le: "y \<le> of_int n \<Longrightarrow> round_half_even y \<le> n"
proof (cases "y = of_int \<lfloor>y\<rfloor>")
  case True
  assume "y \<le> of_int n"
  then have "\<lfloor>y\<rfloor> \<le> n" by (metis floor_mono floor_of_int)
  moreover have "y - of_int \<lfloor>y\<rfloor> < 1 / 2" using True by simp
  ultimately show ?thesis by (simp add: round_half_even_def Let_def)
next
  case False
  assume yn: "y \<le> of_int n"
  have "of_int \<lfloor>y\<rfloor> < y" using False of_int_floor_le[of y] by linarith
  then have "of_int \<lfloor>y\<rfloor> < (of_int n :: real)" using yn by linarith
  then have "\<lfloor>y\<rfloor> < n" by simp
  then show ?thesis by (simp add: round_half_even_def Let_def)
qed

lemma rne_err: "\<bar>of_int (round_half_even y) - y\<bar> \<le> 1 / 2"
proof -
  have "of_int \<lfloor>y\<rfloor> \<le> y" "y < of_int \<lfloor>y\<rfloor> + 1" by linarith+
  then show ?thesis by (auto simp: round_half_even_def Let_def)
qed

lemma round_double_bounds:
  assumes lo: "is_double lo" and hi: "is_double hi" and lx: "lo \<le> x" and xh: "x \<le> hi"
  shows "\<exists>r. round_double x = Fin r \<and> lo \<le> r \<and> r \<le> hi"
proof (cases "x = 0")
  case True
  then show ?thesis using lx xh by (simp add: round_double_def)
next
  case False
  define r where "r = of_int (round_half_even (x / ulp x)) * ulp x"
  obtain n :: int where n: "lo \<le> of_int n * ulp x" "of_int n * ulp x \<le> x"
    using grid_between_lower[OF lo lx False] by blast
  obtain k :: int where k: "x \<le> of_int k * ulp x" "of_int k * ulp x \<le> hi"
    using grid_between_upper[OF hi xh False] by blast
  have u: "0 < ulp x" by (rule ulp_pos)
  have "of_int n \<le> x / ulp x" using n(2) u by (simp add: pos_le_divide_eq)
  then have "n \<le> round_half_even (x / ulp x)" by (rule rne_ge)
  then have "of_int n * ulp x \<le> r" using u by (simp add: r_def)
  then have 1: "lo \<le> r" using n(1) by linarith
  have "x / ulp x \<le> of_int k" using k(1) u by (simp add: pos_divide_le_eq)
  then have "round_half_even (x / ulp x) \<le> k" by (rule rne_le)
  then have "r \<le> of_int k * ulp x" using u by (simp add: r_def)
  then have 2: "r \<le> hi" using k(2) by linarith
  have "\<bar>r\<bar> < overflow_threshold" using 1 2 lo hi by (auto simp: is_double_def)
  then have "round_double x = Fin r" using False by (simp add: round_double_def r_def Let_def)
  then show ?thesis using 1 2 by blast
qed

lemma round_double_exact: "is_double a \<Longrightarrow> round_double a = Fin a"
  using round_double_bounds[of a a a] by auto

lemma round_double_error:
  assumes "round_double x = Fin r"
  shows "\<bar>r - x\<bar> \<le> ulp x / 2"
proof (cases "x = 0")
  case True
  then show ?thesis using assms ulp_pos[of 0] by (simp add: round_double_def)
next
  case False
  define m where "m = round_half_even (x / ulp x)"
  have r: "r = of_int m * ulp x" using assms False
    by (auto simp: round_double_def Let_def m_def split: if_splits)
  have u: "0 < ulp x" by (rule ulp_pos)
  have "\<bar>of_int m - x / ulp x\<bar> \<le> 1 / 2" unfolding m_def by (rule rne_err)
  then have "\<bar>of_int m - x / ulp x\<bar> * ulp x \<le> 1 / 2 * ulp x" using u by simp
  moreover have "\<bar>of_int m - x / ulp x\<bar> * ulp x = \<bar>of_int m * ulp x - x\<bar>"
  proof -
    have "\<bar>of_int m - x / ulp x\<bar> * ulp x = \<bar>(of_int m - x / ulp x) * ulp x\<bar>"
      using u by (simp add: abs_mult)
    also have "(of_int m - x / ulp x) * ulp x = of_int m * ulp x - x"
      using u by (simp add: field_simps)
    finally show ?thesis .
  qed
  ultimately show ?thesis using r by simp
qed

lemma round_double_not_nan: "round_double x \<noteq> NaN"
  by (simp add: round_double_def Let_def)

lemma doubles: "is_double 0" "is_double (1 / 2)" "is_double (- (1 / 2))" "is_double 1"
  "is_double 10" "is_double (- 10)" "is_double 100" "is_double (1 / 4)"
  "is_double (11 / 16)" "is_double (3 / 2)" "is_double (33 / 32)" "is_double (- (1 / 32))"
  by code_simp+

section \<open>Ranges and rounding errors\<close>

text \<open>
  Bounds on what the arithmetic of the script yields: the range of each intermediate value of
  the tilt computation when the clamped coordinates lie between \<open>0\<close> and \<open>1\<close>, and the
  distance of each rounded result from the exact one.
\<close>

lemma round_in_range:
  "is_double lo \<Longrightarrow> is_double hi \<Longrightarrow> lo \<le> x \<Longrightarrow> x \<le> hi \<Longrightarrow> in_range lo hi (round_double x)"
  using round_double_bounds[of lo hi x] by (auto simp: in_range_def)

lemma in_rangeD: "in_range lo hi v \<Longrightarrow> \<exists>x. v = Fin x \<and> lo \<le> x \<and> x \<le> hi"
  by (cases v) (simp_all add: in_range_def)

lemma in_range_Fin [simp]: "in_range lo hi (Fin x) = (lo \<le> x \<and> x \<le> hi)"
  by (simp add: in_range_def)

lemma clamp_Fin: "clamp (Fin x) = Fin (max 0 (min 1 x))"
  by (simp add: clamp_def math_min_def math_max_def max_def min_def)

lemma clamp_range: "v \<noteq> NaN \<Longrightarrow> in_range 0 1 (clamp v)"
  by (cases v) (simp_all add: clamp_def math_min_def math_max_def)

lemma clamp_NaN: "clamp NaN = NaN"
  by (simp add: clamp_def math_min_def math_max_def)

lemma sub_half_range:
  assumes "in_range 0 1 c"
  shows "in_range (- (1 / 2)) (1 / 2) (js_sub c (Fin (1 / 2)))"
proof -
  obtain x where x: "c = Fin x" "0 \<le> x" "x \<le> 1" using in_rangeD[OF assms] by blast
  show ?thesis unfolding x(1) js_sub.simps
    by (rule round_in_range) (use x in \<open>simp_all add: doubles\<close>)
qed

lemma half_sub_range:
  assumes "in_range 0 1 c"
  shows "in_range (- (1 / 2)) (1 / 2) (js_sub (Fin (1 / 2)) c)"
proof -
  obtain x where x: "c = Fin x" "0 \<le> x" "x \<le> 1" using in_rangeD[OF assms] by blast
  show ?thesis unfolding x(1) js_sub.simps
    by (rule round_in_range) (use x in \<open>simp_all add: doubles\<close>)
qed

lemma times20_range:
  assumes "in_range (- (1 / 2)) (1 / 2) d"
  shows "in_range (- 10) 10 (js_mul d (Fin 20))"
proof -
  obtain x where x: "d = Fin x" "- (1 / 2) \<le> x" "x \<le> 1 / 2" using in_rangeD[OF assms] by blast
  show ?thesis unfolding x(1) js_mul.simps
    by (rule round_in_range) (use x in \<open>simp_all add: doubles\<close>)
qed

lemma rotation_Y_range: "in_range 0 1 c \<Longrightarrow> in_range (- 10) 10 (rotation_Y c)"
  unfolding rotation_Y_def by (intro times20_range sub_half_range)

lemma rotation_X_range: "in_range 0 1 c \<Longrightarrow> in_range (- 10) 10 (rotation_X c)"
  unfolding rotation_X_def by (intro times20_range half_sub_range)

lemma times100_range:
  assumes "in_range 0 1 c"
  shows "in_range 0 100 (js_mul c (Fin 100))"
proof -
  obtain x where x: "c = Fin x" "0 \<le> x" "x \<le> 1" using in_rangeD[OF assms] by blast
  show ?thesis unfolding x(1) js_mul.simps
    by (rule round_in_range) (use x in \<open>simp_all add: doubles\<close>)
qed

lemma square_le_quarter:
  fixes x :: real
  assumes "- (1 / 2) \<le> x" "x \<le> 1 / 2"
  shows "0 \<le> x * x" "x * x \<le> 1 / 4"
proof -
  show "0 \<le> x * x" by simp
  have "\<bar>x\<bar> * \<bar>x\<bar> \<le> (1 / 2) * (1 / 2)"
    by (intro mult_mono) (use assms in auto)
  then show "x * x \<le> 1 / 4" by (simp add: abs_mult_self_eq)
qed

lemma square_range:
  assumes "in_range (- (1 / 2)) (1 / 2) d"
  shows "in_range 0 (1 / 4) (js_mul d d)"
proof -
  obtain x where x: "d = Fin x" "- (1 / 2) \<le> x" "x \<le> 1 / 2" using in_rangeD[OF assms] by blast
  show ?thesis unfolding x(1) js_mul.simps
    by (rule round_in_range) (use square_le_quarter[OF x(2,3)] in \<open>simp_all add: doubles\<close>)
qed

lemma sum_range:
  assumes "in_range 0 (1 / 4) a" "in_range 0 (1 / 4) b"
  shows "in_range 0 (1 / 2) (js_add a b)"
proof -
  obtain x where x: "a = Fin x" "0 \<le> x" "x \<le> 1 / 4" using in_rangeD[OF assms(1)] by blast
  obtain y where y: "b = Fin y" "0 \<le> y" "y \<le> 1 / 4" using in_rangeD[OF assms(2)] by blast
  show ?thesis unfolding x(1) y(1) js_add.simps
    by (rule round_in_range) (use x y in \<open>simp_all add: doubles\<close>)
qed

lemma sqrt_range:
  assumes "in_range 0 (1 / 2) s"
  shows "in_range 0 1 (math_sqrt s)"
proof -
  obtain x where x: "s = Fin x" "0 \<le> x" "x \<le> 1 / 2" using in_rangeD[OF assms] by blast
  have "sqrt x \<le> sqrt 1" using x by (intro real_sqrt_le_mono) simp
  then have "sqrt x \<le> 1" by simp
  moreover have "0 \<le> sqrt x" using x by simp
  ultimately have "in_range 0 1 (round_double (sqrt x))"
    by (intro round_in_range) (simp_all add: doubles)
  then show ?thesis using x by simp
qed

lemma times_three_halves_range:
  assumes "in_range 0 1 t"
  shows "in_range 0 (3 / 2) (js_mul t (Fin (3 / 2)))"
proof -
  obtain x where x: "t = Fin x" "0 \<le> x" "x \<le> 1" using in_rangeD[OF assms] by blast
  show ?thesis unfolding x(1) js_mul.simps
    by (rule round_in_range) (use x in \<open>simp_all add: doubles\<close>)
qed

lemma one_minus_range:
  assumes "in_range 0 (3 / 2) u"
  shows "in_range (- (1 / 2)) 1 (js_sub (Fin 1) u)"
proof -
  obtain x where x: "u = Fin x" "0 \<le> x" "x \<le> 3 / 2" using in_rangeD[OF assms] by blast
  show ?thesis unfolding x(1) js_sub.simps
    by (rule round_in_range) (use x in \<open>simp_all add: doubles\<close>)
qed

lemma glare_clamp: "glare cx cy = clamp (js_sub (Fin 1)
    (js_mul (math_sqrt (js_add (js_mul (js_sub cx (Fin (1 / 2))) (js_sub cx (Fin (1 / 2))))
                               (js_mul (js_sub cy (Fin (1 / 2))) (js_sub cy (Fin (1 / 2))))))
            (Fin (3 / 2))))"
  by (simp add: glare_def clamp_def Let_def)


lemma js_sub_Fin_not_NaN: "js_sub (Fin a) (Fin b) \<noteq> NaN"
  by (simp add: round_double_not_nan)




lemma handleMove_fields:
  "style_transform (handleMove e bounding c) =
     Some (Tilt (rotation_X (clamp (normalized_y e (case cached_rect c of Some r \<Rightarrow> r | None \<Rightarrow> bounding))))
                (rotation_Y (clamp (normalized_x e (case cached_rect c of Some r \<Rightarrow> r | None \<Rightarrow> bounding))))
                (103 / 100))
   \<and> var_g (handleMove e bounding c) =
     Some (glare (clamp (normalized_x e (case cached_rect c of Some r \<Rightarrow> r | None \<Rightarrow> bounding)))
                 (clamp (normalized_y e (case cached_rect c of Some r \<Rightarrow> r | None \<Rightarrow> bounding))))
   \<and> var_px (handleMove e bounding c) =
     Some (js_mul (clamp (normalized_x e (case cached_rect c of Some r \<Rightarrow> r | None \<Rightarrow> bounding))) (Fin 100))
   \<and> var_py (handleMove e bounding c) =
     Some (js_mul (clamp (normalized_y e (case cached_rect c of Some r \<Rightarrow> r | None \<Rightarrow> bounding))) (Fin 100))
   \<and> cached_rect (handleMove e bounding c) =
     Some (case cached_rect c of Some r \<Rightarrow> r | None \<Rightarrow> bounding)"
  by (simp add: handleMove_def Let_def)

lemma dispatch_move: "listening c \<Longrightarrow> card_dispatch (Move e) bounding c = handleMove e bounding c"
  by (simp add: card_dispatch_def)

lemma ilog2_less:
  assumes "x \<noteq> 0" "\<bar>x\<bar> < 2 powi k"
  shows "ilog2 x < k"
proof (rule ccontr)
  assume "\<not> ilog2 x < k"
  then have "(2::real) powi k \<le> 2 powi (ilog2 x)" by (intro pow2_le) simp
  then show False using ilog2_bounds[OF assms(1)] assms(2) by linarith
qed

lemma round_error_bound:
  assumes r: "round_double x = Fin r" and x: "\<bar>x\<bar> < 2 powi k" and k: "- 1021 \<le> k"
  shows "\<bar>r - x\<bar> \<le> 2 powi (k - 54)"
proof (cases "x = 0")
  case True
  then show ?thesis using r by (simp add: round_double_def)
next
  case False
  have "ilog2 x < k" by (rule ilog2_less[OF False x])
  then have "max (ilog2 x) (- 1022) - 52 \<le> k - 53" using k by simp
  then have "ulp x \<le> 2 powi (k - 53)" unfolding ulp_def by (rule pow2_le)
  moreover have "(2::real) powi (k - 53) = 2 * 2 powi (k - 54)"
  proof -
    have "(2::real) powi (k - 54 + 1) = 2 * 2 powi (k - 54)"
      by (rule power_int_add_1') simp
    then show ?thesis by (simp add: algebra_simps)
  qed
  ultimately show ?thesis using round_double_error[OF r] by simp
qed

lemma rotation_error:
  assumes d: "js_sub a b = Fin d" and dt: "\<bar>d - t\<bar> \<le> 2 powi (- 54)" and db: "\<bar>d\<bar> \<le> 1 / 2"
    and ry: "js_mul (Fin d) (Fin 20) = Fin ry"
  shows "\<bar>ry - 20 * t\<bar> \<le> 1 / 2 ^ 48"
proof -
  have "\<bar>d * 20\<bar> < 2 powi 4" using db by (simp add: abs_mult)
  then have "\<bar>ry - d * 20\<bar> \<le> 2 powi (4 - 54)"
    using ry by (intro round_error_bound) simp_all
  then have 1: "\<bar>ry - d * 20\<bar> \<le> 1 / 2 ^ 50" by (simp add: power_int_minus field_simps)
  have 2: "\<bar>d - t\<bar> \<le> 1 / 2 ^ 54" using dt by (simp add: power_int_minus field_simps)
  have e: "ry - 20 * t = (ry - d * 20) + 20 * (d - t)" by (simp add: algebra_simps)
  have "\<bar>ry - 20 * t\<bar> \<le> \<bar>ry - d * 20\<bar> + \<bar>20 * (d - t)\<bar>"
    unfolding e by (rule abs_triangle_ineq)
  also have "\<bar>20 * (d - t)\<bar> = 20 * \<bar>d - t\<bar>" by (simp only: abs_mult abs_numeral)
  also have "\<bar>ry - d * 20\<bar> + 20 * \<bar>d - t\<bar> \<le> 1 / 2 ^ 50 + 20 * (1 / 2 ^ 54)"
    by (intro add_mono mult_left_mono 1 2) simp
  also have "\<dots> \<le> 1 / 2 ^ 48" by simp
  finally show ?thesis .
qed

lemma sub_half_error:
  assumes "0 \<le> c" "c \<le> 1"
  shows "\<exists>d. js_sub (Fin c) (Fin (1 / 2)) = Fin d \<and> \<bar>d - (c - 1 / 2)\<bar> \<le> 2 powi (- 54)
     \<and> \<bar>d\<bar> \<le> 1 / 2"
proof -
  have "in_range (- (1 / 2)) (1 / 2) (js_sub (Fin c) (Fin (1 / 2)))"
    by (rule sub_half_range) (use assms in simp)
  then obtain d where d: "js_sub (Fin c) (Fin (1 / 2)) = Fin d" "- (1 / 2) \<le> d" "d \<le> 1 / 2"
    using in_rangeD by blast
  have "\<bar>c - 1 / 2\<bar> < 2 powi 0" using assms by simp
  then have "\<bar>d - (c - 1 / 2)\<bar> \<le> 2 powi (0 - 54)"
    using d(1) by (intro round_error_bound) simp_all
  then show ?thesis using d by auto
qed

lemma half_sub_error:
  assumes "0 \<le> c" "c \<le> 1"
  shows "\<exists>d. js_sub (Fin (1 / 2)) (Fin c) = Fin d \<and> \<bar>d - (1 / 2 - c)\<bar> \<le> 2 powi (- 54)
     \<and> \<bar>d\<bar> \<le> 1 / 2"
proof -
  have "in_range (- (1 / 2)) (1 / 2) (js_sub (Fin (1 / 2)) (Fin c))"
    by (rule half_sub_range) (use assms in simp)
  then obtain d where d: "js_sub (Fin (1 / 2)) (Fin c) = Fin d" "- (1 / 2) \<le> d" "d \<le> 1 / 2"
    using in_rangeD by blast
  have "\<bar>1 / 2 - c\<bar> < 2 powi 0" using assms by simp
  then have "\<bar>d - (1 / 2 - c)\<bar> \<le> 2 powi (0 - 54)"
    using d(1) by (intro round_error_bound) simp_all
  then show ?thesis using d by auto
qed

lemma rotation_Y_linear:
  assumes "0 \<le> c" "c \<le> 1"
  shows "\<exists>ry. rotation_Y (Fin c) = Fin ry \<and> \<bar>ry - 20 * (c - 1 / 2)\<bar> \<le> 1 / 2 ^ 48"
proof -
  obtain d where d: "js_sub (Fin c) (Fin (1 / 2)) = Fin d" "\<bar>d - (c - 1 / 2)\<bar> \<le> 2 powi (- 54)"
    "\<bar>d\<bar> \<le> 1 / 2" using sub_half_error[OF assms] by blast
  have "in_range (- 10) 10 (rotation_Y (Fin c))" by (rule rotation_Y_range) (use assms in simp)
  then obtain ry where ry: "rotation_Y (Fin c) = Fin ry" using in_rangeD by blast
  then have "js_mul (Fin d) (Fin 20) = Fin ry" using d(1) by (simp add: rotation_Y_def)
  then have "\<bar>ry - 20 * (c - 1 / 2)\<bar> \<le> 1 / 2 ^ 48"
    by (rule rotation_error[OF d(1) d(2) d(3)])
  then show ?thesis using ry by blast
qed

lemma rotation_X_linear:
  assumes "0 \<le> c" "c \<le> 1"
  shows "\<exists>rx. rotation_X (Fin c) = Fin rx \<and> \<bar>rx - 20 * (1 / 2 - c)\<bar> \<le> 1 / 2 ^ 48"
proof -
  obtain d where d: "js_sub (Fin (1 / 2)) (Fin c) = Fin d" "\<bar>d - (1 / 2 - c)\<bar> \<le> 2 powi (- 54)"
    "\<bar>d\<bar> \<le> 1 / 2" using half_sub_error[OF assms] by blast
  have "in_range (- 10) 10 (rotation_X (Fin c))" by (rule rotation_X_range) (use assms in simp)
  then obtain rx where rx: "rotation_X (Fin c) = Fin rx" using in_rangeD by blast
  then have "js_mul (Fin d) (Fin 20) = Fin rx" using d(1) by (simp add: rotation_X_def)
  then have "\<bar>rx - 20 * (1 / 2 - c)\<bar> \<le> 1 / 2 ^ 48"
    by (rule rotation_error[OF d(1) d(2) d(3)])
  then show ?thesis using rx by blast
qed

lemma rotation_center: "rotation_Y (Fin (1 / 2)) = Fin 0" "rotation_X (Fin (1 / 2)) = Fin 0"
  by (simp_all add: rotation_Y_def rotation_X_def round_double_def)

lemma rotation_ends:
  "rotation_Y (Fin 0) = Fin (- 10)" "rotation_Y (Fin 1) = Fin 10"
  "rotation_X (Fin 0) = Fin 10" "rotation_X (Fin 1) = Fin (- 10)"
proof -
  have a: "round_double (- (1 / 2)) = Fin (- (1 / 2))" "round_double (1 / 2) = Fin (1 / 2)"
    "round_double (- 10) = Fin (- 10)" "round_double 10 = Fin 10"
    by (simp_all add: round_double_exact doubles)
  show "rotation_Y (Fin 0) = Fin (- 10)" "rotation_Y (Fin 1) = Fin 10"
    "rotation_X (Fin 0) = Fin 10" "rotation_X (Fin 1) = Fin (- 10)"
    by (simp_all add: rotation_Y_def rotation_X_def a)
qed

lemma glare_center: "glare (Fin (1 / 2)) (Fin (1 / 2)) = Fin 1"
proof -
  have z: "round_double 0 = Fin 0" by (simp add: round_double_def)
  have o: "round_double 1 = Fin 1" by (simp add: round_double_exact doubles)
  show ?thesis
    by (simp add: glare_def Let_def z o math_min_def math_max_def)
qed

lemma glare_corner:
  assumes "a = 0 \<or> a = 1" "b = 0 \<or> b = 1"
  shows "glare (Fin a) (Fin b) = Fin 0"
proof -
  have h: "round_double (- (1 / 2)) = Fin (- (1 / 2))" "round_double (1 / 2) = Fin (1 / 2)"
    "round_double (1 / 4) = Fin (1 / 4)"
    by (simp_all add: round_double_exact doubles)
  have dx: "js_mul (js_sub (Fin a) (Fin (1 / 2))) (js_sub (Fin a) (Fin (1 / 2))) = Fin (1 / 4)"
    using assms(1) by (auto simp: h)
  have dy: "js_mul (js_sub (Fin b) (Fin (1 / 2))) (js_sub (Fin b) (Fin (1 / 2))) = Fin (1 / 4)"
    using assms(2) by (auto simp: h)
  have s: "js_add (Fin (1 / 4)) (Fin (1 / 4)) = Fin (1 / 2)" by (simp add: h)
  have "(11 / 16) ^ 2 \<le> (1 / 2 :: real)" by (simp add: power2_eq_square)
  then have "sqrt ((11 / 16) ^ 2) \<le> sqrt (1 / 2)" by (rule real_sqrt_le_mono)
  then have lo: "11 / 16 \<le> sqrt (1 / 2)" by simp
  have "sqrt (1 / 2) \<le> sqrt 1" by (intro real_sqrt_le_mono) simp
  then have hi: "sqrt (1 / 2) \<le> 1" by simp
  have "in_range (11 / 16) 1 (round_double (sqrt (1 / 2)))"
    by (intro round_in_range lo hi) (simp_all add: doubles)
  then obtain q where q: "round_double (sqrt (1 / 2)) = Fin q" "11 / 16 \<le> q" "q \<le> 1"
    using in_rangeD by blast
  have "in_range (33 / 32) (3 / 2) (round_double (q * (3 / 2)))"
    by (intro round_in_range) (use q in \<open>simp_all add: doubles\<close>)
  then obtain m where m: "round_double (q * (3 / 2)) = Fin m" "33 / 32 \<le> m" "m \<le> 3 / 2"
    using in_rangeD by blast
  have "in_range (- (1 / 2)) (- (1 / 32)) (round_double (1 - m))"
    by (intro round_in_range) (use m in \<open>simp_all add: doubles\<close>)
  then obtain w where w: "round_double (1 - m) = Fin w" "- (1 / 2) \<le> w" "w \<le> - (1 / 32)"
    using in_rangeD by blast
  show ?thesis
    unfolding glare_def Let_def dx dy s
    using q m w by (simp add: math_min_def math_max_def)
qed

lemma sqrt_diff_le:
  assumes "0 \<le> x" "0 \<le> y"
  shows "\<bar>sqrt x - sqrt y\<bar> \<le> sqrt \<bar>x - y\<bar>"
proof -
  have a: "sqrt v \<le> sqrt w + sqrt \<bar>v - w\<bar>" if "0 \<le> w" "w \<le> v" for v w :: real
  proof -
    have "sqrt v = sqrt (w + (v - w))" by simp
    also have "\<dots> \<le> sqrt w + sqrt (v - w)" using that by (intro sqrt_add_le_add_sqrt) simp_all
    finally show ?thesis using that by simp
  qed
  show ?thesis
  proof (cases "y \<le> x")
    case True
    have "sqrt y \<le> sqrt x" using True by simp
    then show ?thesis using a[OF assms(2) True] by simp
  next
    case False
    then have le: "x \<le> y" by simp
    have "sqrt x \<le> sqrt y" using le by simp
    moreover have "\<bar>y - x\<bar> = \<bar>x - y\<bar>" by simp
    ultimately show ?thesis using a[OF assms(1) le] by simp
  qed
qed

lemma square_error:
  fixes a t :: real
  assumes "\<bar>a - t\<bar> \<le> d" "\<bar>a\<bar> \<le> 1 / 2" "\<bar>t\<bar> \<le> 1 / 2"
  shows "\<bar>a * a - t * t\<bar> \<le> d"
proof -
  have "a * a - t * t = (a - t) * (a + t)" by (simp add: algebra_simps)
  then have "\<bar>a * a - t * t\<bar> = \<bar>a - t\<bar> * \<bar>a + t\<bar>" by (simp add: abs_mult)
  also have "\<dots> \<le> d * 1"
    by (intro mult_mono) (use assms in auto)
  finally show ?thesis by simp
qed

lemma clamp_lipschitz:
  fixes v w :: real
  shows "\<bar>max 0 (min 1 w) - max 0 (min 1 v)\<bar> \<le> \<bar>w - v\<bar>"
  by linarith

lemma glare_error:
  assumes c: "0 \<le> c" "c \<le> 1" and e: "0 \<le> e" "e \<le> 1"
  shows "\<exists>g. glare (Fin c) (Fin e) = Fin g \<and> 0 \<le> g \<and> g \<le> 1 \<and>
     \<bar>g - max 0 (min 1 (1 - 3 / 2 * sqrt ((c - 1 / 2) * (c - 1 / 2) + (e - 1 / 2) * (e - 1 / 2))))\<bar>
       \<le> 1 / 2 ^ 25"
proof -
  define u where "u = (1::real) / 2 ^ 55"
  have u: "0 < u" "1 / 2 ^ 54 = 2 * u" "1 / 2 ^ 53 = 4 * u" "1 / 2 ^ 52 = 8 * u"
    "1 / 2 ^ 26 = 536870912 * u" "1 / 2 ^ 25 = 1073741824 * u"
    by (simp_all add: u_def)
  define t where "t = c - 1 / 2"
  define s where "s = e - 1 / 2"
  have tb: "\<bar>t\<bar> \<le> 1 / 2" using c unfolding t_def by linarith
  have sb: "\<bar>s\<bar> \<le> 1 / 2" using e unfolding s_def by linarith
  \<comment> \<open>the two differences\<close>
  obtain a where a: "js_sub (Fin c) (Fin (1 / 2)) = Fin a" "\<bar>a - t\<bar> \<le> 2 powi (- 54)" "\<bar>a\<bar> \<le> 1 / 2"
    using sub_half_error[OF c] unfolding t_def by blast
  obtain b where b: "js_sub (Fin e) (Fin (1 / 2)) = Fin b" "\<bar>b - s\<bar> \<le> 2 powi (- 54)" "\<bar>b\<bar> \<le> 1 / 2"
    using sub_half_error[OF e] unfolding s_def by blast
  have at: "\<bar>a - t\<bar> \<le> 2 * u" using a(2) by (simp add: power_int_minus field_simps u_def)
  have bs: "\<bar>b - s\<bar> \<le> 2 * u" using b(2) by (simp add: power_int_minus field_simps u_def)
  \<comment> \<open>the two squares\<close>
  have "in_range 0 (1 / 4) (js_mul (Fin a) (Fin a))"
    by (rule square_range) (use a(3) in auto)
  then obtain p where p: "round_double (a * a) = Fin p" "0 \<le> p" "p \<le> 1 / 4"
    using in_rangeD by fastforce
  have "in_range 0 (1 / 4) (js_mul (Fin b) (Fin b))"
    by (rule square_range) (use b(3) in auto)
  then obtain q where q: "round_double (b * b) = Fin q" "0 \<le> q" "q \<le> 1 / 4"
    using in_rangeD by fastforce
  have aa: "0 \<le> a * a" "a * a \<le> 1 / 4" using square_le_quarter[of a] a(3) by auto
  have bb: "0 \<le> b * b" "b * b \<le> 1 / 4" using square_le_quarter[of b] b(3) by auto
  have "\<bar>a * a\<bar> < 2 powi (- 1)" using aa by (simp add: power_int_minus)
  then have "\<bar>p - a * a\<bar> \<le> 2 powi (- 1 - 54)" using p(1) by (intro round_error_bound) simp_all
  then have pa: "\<bar>p - a * a\<bar> \<le> u" by (simp add: power_int_minus field_simps u_def)
  have "\<bar>b * b\<bar> < 2 powi (- 1)" using bb by (simp add: power_int_minus)
  then have "\<bar>q - b * b\<bar> \<le> 2 powi (- 1 - 54)" using q(1) by (intro round_error_bound) simp_all
  then have qb: "\<bar>q - b * b\<bar> \<le> u" by (simp add: power_int_minus field_simps u_def)
  have pt: "\<bar>p - t * t\<bar> \<le> 3 * u" using pa square_error[OF at a(3) tb] by linarith
  have qs: "\<bar>q - s * s\<bar> \<le> 3 * u" using qb square_error[OF bs b(3) sb] by linarith
  \<comment> \<open>their sum\<close>
  have "in_range 0 (1 / 2) (js_add (Fin p) (Fin q))"
    by (rule sum_range) (use p q in auto)
  then obtain z where z: "round_double (p + q) = Fin z" "0 \<le> z" "z \<le> 1 / 2"
    using in_rangeD by fastforce
  have "\<bar>p + q\<bar> < 2 powi 0" using p q by simp
  then have "\<bar>z - (p + q)\<bar> \<le> 2 powi (0 - 54)" using z(1) by (intro round_error_bound) simp_all
  then have zpq: "\<bar>z - (p + q)\<bar> \<le> 2 * u" by (simp add: power_int_minus field_simps u_def)
  define D2 where "D2 = t * t + s * s"
  have D2: "0 \<le> D2" by (simp add: D2_def)
  have zD2: "\<bar>z - D2\<bar> \<le> 8 * u" using zpq pt qs unfolding D2_def by linarith
  \<comment> \<open>the square root\<close>
  have "in_range 0 1 (math_sqrt (Fin z))"
    by (rule sqrt_range) (use z in auto)
  then obtain r where r: "round_double (sqrt z) = Fin r" "0 \<le> r" "r \<le> 1"
    using in_rangeD z(2) by fastforce
  have "sqrt z \<le> sqrt (1 / 2)" using z by (intro real_sqrt_le_mono) simp
  also have "sqrt (1 / 2) < sqrt 1" by (intro real_sqrt_less_mono) simp
  finally have "sqrt z < 1" by simp
  then have "\<bar>sqrt z\<bar> < 2 powi 0" using z(2) by simp
  then have "\<bar>r - sqrt z\<bar> \<le> 2 powi (0 - 54)" using r(1) by (intro round_error_bound) simp_all
  then have rz: "\<bar>r - sqrt z\<bar> \<le> 2 * u" by (simp add: power_int_minus field_simps u_def)
  have "\<bar>z - D2\<bar> \<le> 1 / 2 ^ 52" using zD2 unfolding u(4) .
  then have "sqrt \<bar>z - D2\<bar> \<le> sqrt (1 / 2 ^ 52)"
    by (rule real_sqrt_le_mono)
  also have "sqrt (1 / 2 ^ 52) = (1::real) / 2 ^ 26"
    by (rule real_sqrt_unique) (simp_all add: power2_eq_square)
  also have "(1::real) / 2 ^ 26 = 536870912 * u" by (rule u(5))
  finally have "sqrt \<bar>z - D2\<bar> \<le> 536870912 * u" .
  then have "\<bar>sqrt z - sqrt D2\<bar> \<le> 536870912 * u"
    using sqrt_diff_le[OF z(2) D2] by linarith
  then have rD: "\<bar>r - sqrt D2\<bar> \<le> 536870914 * u" using rz by linarith
  \<comment> \<open>times one and a half\<close>
  have "in_range 0 (3 / 2) (js_mul (Fin r) (Fin (3 / 2)))"
    by (rule times_three_halves_range) (use r in auto)
  then obtain m where m: "round_double (r * (3 / 2)) = Fin m" "0 \<le> m" "m \<le> 3 / 2"
    using in_rangeD by fastforce
  have "\<bar>r * (3 / 2)\<bar> < 2 powi 1" using r by simp
  then have "\<bar>m - r * (3 / 2)\<bar> \<le> 2 powi (1 - 54)" using m(1) by (intro round_error_bound) simp_all
  then have mr: "\<bar>m - r * (3 / 2)\<bar> \<le> 4 * u" by (simp add: power_int_minus field_simps u_def)
  have mD: "\<bar>m - 3 / 2 * sqrt D2\<bar> \<le> 805306375 * u" using mr rD by linarith
  \<comment> \<open>one minus that\<close>
  have "in_range (- (1 / 2)) 1 (js_sub (Fin 1) (Fin m))"
    by (rule one_minus_range) (use m in auto)
  then obtain w where w: "round_double (1 - m) = Fin w" "- (1 / 2) \<le> w" "w \<le> 1"
    using in_rangeD by fastforce
  have "\<bar>1 - m\<bar> < 2 powi 1" using m by simp
  then have "\<bar>w - (1 - m)\<bar> \<le> 2 powi (1 - 54)" using w(1) by (intro round_error_bound) simp_all
  then have wm: "\<bar>w - (1 - m)\<bar> \<le> 4 * u" by (simp add: power_int_minus field_simps u_def)
  have wD: "\<bar>w - (1 - 3 / 2 * sqrt D2)\<bar> \<le> 805306379 * u" using wm mD by linarith
  \<comment> \<open>the clamp\<close>
  have g: "glare (Fin c) (Fin e) = Fin (max 0 (min 1 w))"
  proof -
    have a': "round_double (c - 1 / 2) = Fin a" using a(1) by simp
    have b': "round_double (e - 1 / 2) = Fin b" using b(1) by simp
    have nz: "\<not> z < 0" using z(2) by simp
    have 1: "js_mul (Fin a) (Fin a) = Fin p" using p(1) by simp
    have 2: "js_mul (Fin b) (Fin b) = Fin q" using q(1) by simp
    have 3: "js_add (Fin p) (Fin q) = Fin z" using z(1) by simp
    have 4: "math_sqrt (Fin z) = Fin r" using r(1) nz by simp
    have 5: "js_mul (Fin r) (Fin (3 / 2)) = Fin m" using m(1) by simp
    have 6: "js_sub (Fin 1) (Fin m) = Fin w" using w(1) by simp
    show ?thesis
      unfolding glare_clamp a(1) b(1) 1 2 3 4 5 6 by (rule clamp_Fin)
  qed
  have "\<bar>max 0 (min 1 w) - max 0 (min 1 (1 - 3 / 2 * sqrt D2))\<bar> \<le> 805306379 * u"
    using clamp_lipschitz[of w "1 - 3 / 2 * sqrt D2"] wD by linarith
  also have "\<dots> \<le> 1 / 2 ^ 25" using u(1) unfolding u(6) by simp
  finally have "\<bar>max 0 (min 1 w) - max 0 (min 1 (1 - 3 / 2 * sqrt D2))\<bar> \<le> 1 / 2 ^ 25" .
  moreover have "0 \<le> max 0 (min 1 w)" "max 0 (min 1 w) \<le> 1" by simp_all
  ultimately show ?thesis using g unfolding D2_def t_def s_def by blast
qed

section \<open>The result renderer\<close>

lemma displayResults_diagnosis_result:
  "displayResults (diagnosis_result d c r) =
     Inr [SetInnerHTML ResultsList (results_template d (confidence_percent c) r)]"
  by (simp add: displayResults_def diagnosis_result_def bind_exn_def own_property_def)

lemma percent_085: "confidence_percent (string_to_number ''0.85'') = ''85''"
  by code_simp

lemma percent_0854: "confidence_percent (string_to_number ''0.854'') = ''85''"
  by code_simp

lemma percent_0855: "confidence_percent (string_to_number ''0.855'') = ''86''"
  by code_simp

lemma product_0855: "js_mul (string_to_number ''0.855'') (Fin 100) = Fin (171 / 2)"
  by code_simp

lemma diagnosis_block_frame:
  \<open>\<exists>a b e. \<forall>d pc. diagnosis_block d pc = a @ d @ b @ pc @ ''%'' @ e\<close>
proof (intro exI allI)
  fix d pc
  show \<open>diagnosis_block d pc =
    (html_line 12 ''<div class="bg-blue-100 border border-blue-400 text-blue-800 px-4 py-3 rounded-md mb-4">'' @
     html_line 16 (''<!-- Show the AI'' @ [CHR 0x27] @ ''s diagnosis for the symptoms -->'') @
     replicate 16 CHR '' '' @ ''<p class="font-bold">Possible Diagnosis: '')
    @ d @
    (''</p>'' @ [CHR 0x0A] @ html_line 16 ''<!-- Show confidence as percentage (0-100%) -->'' @
     replicate 16 CHR '' '' @ ''<p class="text-sm">Confidence: '')
    @ pc @ ''%'' @
    (''</p>'' @ [CHR 0x0A] @ html_line 12 ''</div>'')\<close>
    by (simp add: diagnosis_block_def html_line_def)
qed

lemma recommendation_block_frame:
  \<open>\<exists>a e. \<forall>r. recommendation_block r = a @ r @ e\<close>
proof (intro exI allI)
  fix r
  show \<open>recommendation_block r =
    (html_line 12 ''<div class="bg-green-100 border border-green-400 text-green-800 px-4 py-3 rounded-md">'' @
     html_line 16 ''<!-- Header for next steps -->'' @
     html_line 16 ''<p class="font-bold">Next Steps:</p>'' @
     html_line 16 ''<!-- Show the recommended action/treatment -->'' @
     replicate 16 CHR '' '' @ ''<p>'')
    @ r @
    (''</p>'' @ [CHR 0x0A] @ html_line 12 ''</div>'')\<close>
    by (simp add: recommendation_block_def html_line_def)
qed

lemma results_template_frame:
  \<open>\<exists>w x y z. \<forall>d pc r. results_template d pc r = w @ d @ x @ pc @ ''%'' @ y @ r @ z\<close>
proof -
  obtain a b e where 1: \<open>\<And>d pc. diagnosis_block d pc = a @ d @ b @ pc @ ''%'' @ e\<close>
    using diagnosis_block_frame by blast
  obtain a' e' where 2: \<open>\<And>r. recommendation_block r = a' @ r @ e'\<close>
    using recommendation_block_frame by blast
  have \<open>\<forall>d pc r. results_template d pc r =
     ([CHR 0x0A] @ html_line 12 ''<!-- Diagnosis Information Box -->'' @ a) @ d @ b @ pc @ ''%'' @
     (e @ html_line 12 [] @ html_line 12 ''<!-- Recommendations Information Box -->'' @ a') @ r @
     (e' @ replicate 8 CHR '' '')\<close>
    by (simp add: results_template_def 1 2)
  then show ?thesis by blast
qed

lemma set_inner_html_only:
  "run_effects p [SetInnerHTML ResultsList h] = p\<lparr>inner_html := (inner_html p)(ResultsList := h)\<rparr>"
  by (simp add: run_effects_def)

lemma percent_0857: "confidence_percent (string_to_number ''0.857'') = ''86''"
  by code_simp

lemma percent_0845: "confidence_percent (string_to_number ''0.845'') = ''85''"
  by code_simp

lemma product_0845: "js_mul (string_to_number ''0.845'') (Fin 100) = Fin (169 / 2)"
  by code_simp

lemma product_0854:
  "js_mul (string_to_number ''0.854'') (Fin 100) = Fin (6009490752772505 / 70368744177664)"
  by code_simp

lemma product_0857:
  "js_mul (string_to_number ''0.857'') (Fin 100) = Fin (6030601376025805 / 70368744177664)"
  by code_simp

lemma math_round_floor: "math_round (Fin x) = Fin (of_int \<lfloor>x + 1 / 2\<rfloor>)"
  by simp

lemma math_round_half: "math_round (Fin (of_int n + 1 / 2)) = Fin (of_int (n + 1))"
proof -
  have "\<lfloor>of_int n + 1 / 2 + 1 / (2::real)\<rfloor> = n + 1"
    by (simp add: floor_unique)
  then show ?thesis by simp
qed

lemma percent_general:
  "0 \<le> v \<and> v \<le> 1 \<longrightarrow>
     (\<exists>y. js_mul (Fin v) (Fin 100) = Fin y \<and> \<bar>y - v * 100\<bar> \<le> 1 / 2 ^ 47
        \<and> confidence_percent (Fin v) = number_to_string (Fin (of_int \<lfloor>y + 1 / 2\<rfloor>)))"
proof
  assume v: "0 \<le> v \<and> v \<le> 1"
  then have "in_range 0 100 (js_mul (Fin v) (Fin 100))"
    by (intro times100_range) simp
  then obtain y where y: "round_double (v * 100) = Fin y"
    using in_rangeD by fastforce
  have "\<bar>v * 100\<bar> < 2 powi 7" using v by simp
  then have "\<bar>y - v * 100\<bar> \<le> 2 powi (7 - 54)" using y by (intro round_error_bound) simp_all
  then have e: "\<bar>y - v * 100\<bar> \<le> 1 / 2 ^ 47" by (simp add: power_int_minus field_simps)
  have m: "js_mul (Fin v) (Fin 100) = Fin y" using y by simp
  have "confidence_percent (Fin v) = number_to_string (Fin (of_int \<lfloor>y + 1 / 2\<rfloor>))"
    unfolding confidence_percent_def m by simp
  with m e show "\<exists>y. js_mul (Fin v) (Fin 100) = Fin y \<and> \<bar>y - v * 100\<bar> \<le> 1 / 2 ^ 47
        \<and> confidence_percent (Fin v) = number_to_string (Fin (of_int \<lfloor>y + 1 / 2\<rfloor>))"
    by blast
qed

lemma results_template_text:
  \<open>\<exists>w x y z. \<forall>d pc r. results_template d pc r =
      w @ (''Possible Diagnosis: '' @ d @ ''</p>'') @ x @ (''Confidence: '' @ pc @ ''%</p>'') @ y @
      (''<p>'' @ r @ ''</p>'') @ z\<close>
proof (intro exI allI)
  fix d pc r
  show \<open>results_template d pc r =
    ([CHR 0x0A] @ html_line 12 ''<!-- Diagnosis Information Box -->'' @
     html_line 12 ''<div class="bg-blue-100 border border-blue-400 text-blue-800 px-4 py-3 rounded-md mb-4">'' @
     html_line 16 (''<!-- Show the AI'' @ [CHR 0x27] @ ''s diagnosis for the symptoms -->'') @
     replicate 16 CHR '' '' @ ''<p class="font-bold">'')
    @ (''Possible Diagnosis: '' @ d @ ''</p>'') @
    ([CHR 0x0A] @ html_line 16 ''<!-- Show confidence as percentage (0-100%) -->'' @
     replicate 16 CHR '' '' @ ''<p class="text-sm">'')
    @ (''Confidence: '' @ pc @ ''%</p>'') @
    ([CHR 0x0A] @ html_line 12 ''</div>'' @ html_line 12 [] @
     html_line 12 ''<!-- Recommendations Information Box -->'' @
     html_line 12 ''<div class="bg-green-100 border border-green-400 text-green-800 px-4 py-3 rounded-md">'' @
     html_line 16 ''<!-- Header for next steps -->'' @
     html_line 16 ''<p class="font-bold">Next Steps:</p>'' @
     html_line 16 ''<!-- Show the recommended action/treatment -->'' @
     replicate 16 CHR '' '')
    @ (''<p>'' @ r @ ''</p>'') @
    ([CHR 0x0A] @ html_line 12 ''</div>'' @ replicate 8 CHR '' '')\<close>
    by (simp add: results_template_def diagnosis_block_def recommendation_block_def html_line_def)
qed

lemma example_text:
  \<open>\<exists>w x y z. results_template ''Tension Headache'' ''85'' ''Rest and hydrate'' =
      w @ ''Possible Diagnosis: Tension Headache</p>'' @ x @ ''Confidence: 85%</p>'' @ y @
      ''<p>Rest and hydrate</p>'' @ z\<close>
proof -
  obtain w x y z where t: \<open>\<And>d pc r. results_template d pc r =
      w @ (''Possible Diagnosis: '' @ d @ ''</p>'') @ x @ (''Confidence: '' @ pc @ ''%</p>'') @ y @
      (''<p>'' @ r @ ''</p>'') @ z\<close>
    using results_template_text by blast
  have \<open>results_template ''Tension Headache'' ''85'' ''Rest and hydrate'' =
      w @ ''Possible Diagnosis: Tension Headache</p>'' @ x @ ''Confidence: 85%</p>'' @ y @
      ''<p>Rest and hydrate</p>'' @ z\<close>
    unfolding t by simp
  then show ?thesis by blast
qed

lemma confidence_text:
  \<open>\<exists>a b. results_template d pc r = a @ ''Confidence: '' @ pc @ ''%</p>'' @ b\<close>
proof -
  obtain w x y z where t: \<open>\<And>d pc r. results_template d pc r =
      w @ (''Possible Diagnosis: '' @ d @ ''</p>'') @ x @ (''Confidence: '' @ pc @ ''%</p>'') @ y @
      (''<p>'' @ r @ ''</p>'') @ z\<close>
    using results_template_text by blast
  have \<open>results_template d pc r =
      (w @ (''Possible Diagnosis: '' @ d @ ''</p>'') @ x) @ ''Confidence: '' @ pc @ ''%</p>'' @
      (y @ (''<p>'' @ r @ ''</p>'') @ z)\<close>
    unfolding t by simp
  then show ?thesis by blast
qed

lemma shown_text:
  assumes \<open>confidence_percent c = pc\<close>
  shows \<open>\<exists>a b. displayResults (diagnosis_result d c r) =
     Inr [SetInnerHTML ResultsList (a @ ''Confidence: '' @ pc @ ''%</p>'' @ b)]\<close>
proof -
  obtain a b where \<open>results_template d pc r = a @ ''Confidence: '' @ pc @ ''%</p>'' @ b\<close>
    using confidence_text by blast
  then have \<open>displayResults (diagnosis_result d c r) =
     Inr [SetInnerHTML ResultsList (a @ ''Confidence: '' @ pc @ ''%</p>'' @ b)]\<close>
    by (simp only: displayResults_diagnosis_result assms)
  then show ?thesis by blast
qed

lemma shown_in_list:
  "inner_html (run_effects p [SetInnerHTML ResultsList h]) ResultsList = h"
  by (simp add: run_effects_def)

text \<open>
  C5. \<open>displayResults\<close> is a function of the diagnosis result alone: whatever the page, its
  one effect is to set the results list to the template filled from the result. The template
  is the diagnosis block followed by the recommendation block, between fixed comments and
  white space; the diagnosis block is a fixed frame around the literal diagnosis string and
  the confidence shown as \<open>round(confidence * 100)\<close> with a percent sign, the recommendation
  block a fixed frame around the recommendation text. For the result with diagnosis
  \<open>Tension Headache\<close>, confidence \<open>0.85\<close> and recommendation \<open>Rest and hydrate\<close> the
  output holds \<open>Possible Diagnosis: Tension Headache\<close>, then \<open>Confidence: 85%\<close>, then the
  recommendation in its paragraph. The rounding is to the nearest integer, \<open>\<lfloor>y + 1/2\<rfloor>\<close> of
  the product \<open>y\<close>: for a confidence \<open>v\<close> between \<open>0\<close> and \<open>1\<close> the product is within
  \<open>2\<^sup>-\<^sup>4\<^sup>7\<close> of \<open>100 v\<close>, and the number printed is \<open>\<lfloor>y + 1/2\<rfloor>\<close>. With the same diagnosis
  and recommendation, the confidence \<open>0.857\<close>, whose product is not an integer, is shown as
  \<open>86\<close>, and \<open>0.854\<close> as \<open>85\<close>.
\<close>

theorem displayResults_two_blocks:
  \<open>displayResults (diagnosis_result d c r) =
     Inr [SetInnerHTML ResultsList (results_template d (confidence_percent c) r)]
   \<and> run_effects p [SetInnerHTML ResultsList h] = p\<lparr>inner_html := (inner_html p)(ResultsList := h)\<rparr>
   \<and> confidence_percent c = number_to_string (math_round (js_mul c (Fin 100)))
   \<and> results_template d pc r =
       [CHR 0x0A] @ html_line 12 ''<!-- Diagnosis Information Box -->'' @
       diagnosis_block d pc @
       html_line 12 [] @ html_line 12 ''<!-- Recommendations Information Box -->'' @
       recommendation_block r @
       replicate 8 CHR '' ''
   \<and> (\<exists>a b e. \<forall>d pc. diagnosis_block d pc = a @ d @ b @ pc @ ''%'' @ e)
   \<and> (\<exists>a e. \<forall>r. recommendation_block r = a @ r @ e)
   \<and> (\<exists>w x y z. \<forall>d pc r. results_template d pc r = w @ d @ x @ pc @ ''%'' @ y @ r @ z)
   \<and> displayResults (diagnosis_result ''Tension Headache'' (string_to_number ''0.85'') ''Rest and hydrate'') =
       Inr [SetInnerHTML ResultsList (results_template ''Tension Headache'' ''85'' ''Rest and hydrate'')]
   \<and> (\<exists>w x y z. results_template ''Tension Headache'' ''85'' ''Rest and hydrate'' =
         w @ ''Possible Diagnosis: Tension Headache</p>'' @ x @ ''Confidence: 85%</p>'' @ y @
         ''<p>Rest and hydrate</p>'' @ z)
   \<and> math_round (Fin v) = Fin (of_int \<lfloor>v + 1 / 2\<rfloor>)
   \<and> (0 \<le> v \<and> v \<le> 1 \<longrightarrow>
        (\<exists>y. js_mul (Fin v) (Fin 100) = Fin y \<and> \<bar>y - v * 100\<bar> \<le> 1 / 2 ^ 47
           \<and> confidence_percent (Fin v) = number_to_string (Fin (of_int \<lfloor>y + 1 / 2\<rfloor>))))
   \<and> js_mul (string_to_number ''0.857'') (Fin 100) = Fin (6030601376025805 / 70368744177664)
   \<and> displayResults (diagnosis_result ''Tension Headache'' (string_to_number ''0.857'') ''Rest and hydrate'') =
       Inr [SetInnerHTML ResultsList (results_template ''Tension Headache'' ''86'' ''Rest and hydrate'')]
   \<and> js_mul (string_to_number ''0.854'') (Fin 100) = Fin (6009490752772505 / 70368744177664)
   \<and> displayResults (diagnosis_result ''Tension Headache'' (string_to_number ''0.854'') ''Rest and hydrate'') =
       Inr [SetInnerHTML ResultsList (results_template ''Tension Headache'' ''85'' ''Rest and hydrate'')]\<close>
proof -
  have example: \<open>displayResults (diagnosis_result ''Tension Headache'' (string_to_number ''0.85'') ''Rest and hydrate'') =
       Inr [SetInnerHTML ResultsList (results_template ''Tension Headache'' ''85'' ''Rest and hydrate'')]\<close>
    by (simp only: displayResults_diagnosis_result percent_085)
  have up: \<open>displayResults (diagnosis_result ''Tension Headache'' (string_to_number ''0.857'') ''Rest and hydrate'') =
       Inr [SetInnerHTML ResultsList (results_template ''Tension Headache'' ''86'' ''Rest and hydrate'')]\<close>
    by (simp only: displayResults_diagnosis_result percent_0857)
  have down: \<open>displayResults (diagnosis_result ''Tension Headache'' (string_to_number ''0.854'') ''Rest and hydrate'') =
       Inr [SetInnerHTML ResultsList (results_template ''Tension Headache'' ''85'' ''Rest and hydrate'')]\<close>
    by (simp only: displayResults_diagnosis_result percent_0854)
  show ?thesis
    by (intro conjI displayResults_diagnosis_result set_inner_html_only confidence_percent_def
        results_template_def diagnosis_block_frame recommendation_block_frame
        results_template_frame example example_text math_round_floor percent_general
        product_0857 up product_0854 down)
qed

theorem displayResults_two_blocks_witness:
  \<open>displayResults (diagnosis_result ''Migraine'' (string_to_number ''0.857'') ''Rest'') =
     Inr [SetInnerHTML ResultsList (results_template ''Migraine'' ''86'' ''Rest'')]
   \<and> (\<exists>y. js_mul (Fin (1 / 2)) (Fin 100) = Fin y \<and> \<bar>y - 50\<bar> \<le> 1 / 2 ^ 47
        \<and> confidence_percent (Fin (1 / 2)) = number_to_string (Fin (of_int \<lfloor>y + 1 / 2\<rfloor>)))\<close>
proof -
  have 1: "confidence_percent (string_to_number ''0.857'') = ''86''" by code_simp
  have 2: "(0::real) \<le> 1 / 2 \<and> (1::real) / 2 \<le> 1" by simp
  have 3: "(1::real) / 2 * 100 = 50" by simp
  note inst = displayResults_two_blocks[where d = "''Migraine''"
      and c = "string_to_number ''0.857''" and r = "''Rest''" and v = "1 / 2"]
  from inst have a: \<open>displayResults (diagnosis_result ''Migraine'' (string_to_number ''0.857'') ''Rest'') =
     Inr [SetInnerHTML ResultsList (results_template ''Migraine''
        (confidence_percent (string_to_number ''0.857'')) ''Rest'')]\<close>
    by (rule conjunct1)
  from inst 2 have b: \<open>\<exists>y. js_mul (Fin (1 / 2)) (Fin 100) = Fin y \<and> \<bar>y - 1 / 2 * 100\<bar> \<le> 1 / 2 ^ 47
        \<and> confidence_percent (Fin (1 / 2)) = number_to_string (Fin (of_int \<lfloor>y + 1 / 2\<rfloor>))\<close>
    by blast
  show ?thesis using a b unfolding 1 3 by (rule conjI)
qed

text \<open>
  C6. For the confidence \<open>0.854\<close> the displayed percentage is \<open>85%\<close>; for \<open>0.855\<close> it is
  \<open>86%\<close>: the double nearest to \<open>0.855\<close>, times \<open>100\<close>, rounds to exactly \<open>85.5\<close>, and
  \<open>Math.round\<close> takes the half up. So it does for every half: \<open>n + 1/2\<close> goes to \<open>n + 1\<close>,
  and every finite \<open>v\<close> to \<open>\<lfloor>v + 1/2\<rfloor>\<close>. The confidence \<open>0.845\<close>, whose product is exactly
  \<open>84.5\<close>, is displayed as \<open>85%\<close>, where rounding the half to the even integer would give
  \<open>84\<close>. The percentage stands in the results list after \<open>Confidence: \<close> and before the
  percent sign.
\<close>

theorem percentage_rounds_half_up:
  \<open>displayResults (diagnosis_result d (string_to_number ''0.854'') r) =
     Inr [SetInnerHTML ResultsList (results_template d ''85'' r)]
   \<and> displayResults (diagnosis_result d (string_to_number ''0.855'') r) =
     Inr [SetInnerHTML ResultsList (results_template d ''86'' r)]
   \<and> js_mul (string_to_number ''0.855'') (Fin 100) = Fin (171 / 2)
   \<and> math_round (Fin (171 / 2)) = Fin 86
   \<and> js_mul (string_to_number ''0.854'') (Fin 100) = Fin (6009490752772505 / 70368744177664)
   \<and> displayResults (diagnosis_result d (string_to_number ''0.845'') r) =
     Inr [SetInnerHTML ResultsList (results_template d ''85'' r)]
   \<and> js_mul (string_to_number ''0.845'') (Fin 100) = Fin (169 / 2)
   \<and> math_round (Fin (169 / 2)) = Fin 85
   \<and> math_round (Fin (of_int n + 1 / 2)) = Fin (of_int (n + 1))
   \<and> math_round (Fin v) = Fin (of_int \<lfloor>v + 1 / 2\<rfloor>)
   \<and> (\<exists>a b. results_template d pc r = a @ ''Confidence: '' @ pc @ ''%</p>'' @ b)
   \<and> (\<exists>a b. displayResults (diagnosis_result d (string_to_number ''0.854'') r) =
         Inr [SetInnerHTML ResultsList (a @ ''Confidence: 85%</p>'' @ b)])
   \<and> (\<exists>a b. displayResults (diagnosis_result d (string_to_number ''0.855'') r) =
         Inr [SetInnerHTML ResultsList (a @ ''Confidence: 86%</p>'' @ b)])
   \<and> (\<exists>a b. displayResults (diagnosis_result d (string_to_number ''0.845'') r) =
         Inr [SetInnerHTML ResultsList (a @ ''Confidence: 85%</p>'' @ b)])
   \<and> inner_html (run_effects p [SetInnerHTML ResultsList h]) ResultsList = h\<close>
proof -
  have 1: \<open>displayResults (diagnosis_result d (string_to_number ''0.854'') r) =
     Inr [SetInnerHTML ResultsList (results_template d ''85'' r)]\<close>
    by (simp only: displayResults_diagnosis_result percent_0854)
  have 2: \<open>displayResults (diagnosis_result d (string_to_number ''0.855'') r) =
     Inr [SetInnerHTML ResultsList (results_template d ''86'' r)]\<close>
    by (simp only: displayResults_diagnosis_result percent_0855)
  have 3: \<open>displayResults (diagnosis_result d (string_to_number ''0.845'') r) =
     Inr [SetInnerHTML ResultsList (results_template d ''85'' r)]\<close>
    by (simp only: displayResults_diagnosis_result percent_0845)
  have 4: "math_round (Fin (171 / 2)) = Fin 86" by simp
  have 5: "math_round (Fin (169 / 2)) = Fin 85" by simp
  have 6: \<open>\<exists>a b. displayResults (diagnosis_result d (string_to_number ''0.854'') r) =
         Inr [SetInnerHTML ResultsList (a @ ''Confidence: 85%</p>'' @ b)]\<close>
    using shown_text[OF percent_0854, of d r] by simp
  have 7: \<open>\<exists>a b. displayResults (diagnosis_result d (string_to_number ''0.855'') r) =
         Inr [SetInnerHTML ResultsList (a @ ''Confidence: 86%</p>'' @ b)]\<close>
    using shown_text[OF percent_0855, of d r] by simp
  have 8: \<open>\<exists>a b. displayResults (diagnosis_result d (string_to_number ''0.845'') r) =
         Inr [SetInnerHTML ResultsList (a @ ''Confidence: 85%</p>'' @ b)]\<close>
    using shown_text[OF percent_0845, of d r] by simp
  show ?thesis
    by (intro conjI 1 2 product_0855 4 product_0854 3 product_0845 5 math_round_half
        math_round_floor confidence_text 6 7 8 shown_in_list)
qed

theorem percentage_rounds_half_up_witness:
  \<open>displayResults (diagnosis_result ''Flu'' (string_to_number ''0.855'') ''Rest'') =
     Inr [SetInnerHTML ResultsList (results_template ''Flu'' ''86'' ''Rest'')]
   \<and> displayResults (diagnosis_result ''Flu'' (string_to_number ''0.845'') ''Rest'') =
     Inr [SetInnerHTML ResultsList (results_template ''Flu'' ''85'' ''Rest'')]
   \<and> math_round (Fin (5 / 2)) = Fin 3\<close>
proof -
  note inst = percentage_rounds_half_up[where d = "''Flu''" and r = "''Rest''" and n = 2]
  have "math_round (Fin (of_int 2 + 1 / 2)) = Fin (of_int (2 + 1))" using inst by blast
  then have "math_round (Fin (5 / 2)) = Fin 3" by simp
  then show ?thesis using inst by blast
qed

section \<open>The query dispatcher and the input wiring\<close>

lemma displayResults_effects:
  assumes "displayResults data = Inr effs"
  shows "\<exists>h. effs = [SetInnerHTML ResultsList h]"
  using assms by (auto simp: displayResults_def bind_exn_def Let_def split: sum.splits)

lemma fetchSymptoms_try_effects:
  assumes "fetchSymptoms_try out = Inr effs"
  shows "\<exists>h. effs = [SetInnerHTML ResultsList h]"
  using assms displayResults_effects
  by (auto simp: fetchSymptoms_try_def split: fetch_outcome.splits body_result.splits if_splits)

lemma fetchSymptoms_failure:
  "fetchSymptoms_try out = Inl e \<Longrightarrow>
   fetchSymptoms s out =
     [ClassAdd ResultContainer ''hidden'', SetInnerHTML ResultsList searching_html,
      Fetch (symptom_request s),
      ConsoleError ''Error fetching data:'' e, SetInnerHTML ResultsList error_html,
      ClassRemove ResultContainer ''hidden'']"
  by (simp add: fetchSymptoms_def)

lemma fetchSymptoms_success:
  "fetchSymptoms_try out = Inr effs \<Longrightarrow>
   \<exists>h. effs = [SetInnerHTML ResultsList h] \<and> fetchSymptoms s out =
     [ClassAdd ResultContainer ''hidden'', SetInnerHTML ResultsList searching_html,
      Fetch (symptom_request s),
      SetInnerHTML ResultsList h,
      ClassRemove ResultContainer ''hidden'']"
  using fetchSymptoms_try_effects[of out effs] by (auto simp: fetchSymptoms_def)

lemma fetchSymptoms_cases:
  obtains e where "fetchSymptoms_try out = Inl e"
      "fetchSymptoms s out =
        [ClassAdd ResultContainer ''hidden'', SetInnerHTML ResultsList searching_html,
         Fetch (symptom_request s),
         ConsoleError ''Error fetching data:'' e, SetInnerHTML ResultsList error_html,
         ClassRemove ResultContainer ''hidden'']"
  | h where "fetchSymptoms_try out = Inr [SetInnerHTML ResultsList h]"
      "fetchSymptoms s out =
        [ClassAdd ResultContainer ''hidden'', SetInnerHTML ResultsList searching_html,
         Fetch (symptom_request s),
         SetInnerHTML ResultsList h,
         ClassRemove ResultContainer ''hidden'']"
proof (cases "fetchSymptoms_try out")
  case (Inl e)
  then show ?thesis using that(1) fetchSymptoms_failure by blast
next
  case (Inr effs)
  then show ?thesis using that(2) fetchSymptoms_success[of out effs s] by auto
qed

lemma requests_of_fetchSymptoms: "requests_of (fetchSymptoms s out) = [symptom_request s]"
  by (rule fetchSymptoms_cases[of out s]) (simp_all add: requests_of_def)

lemma run_fetchSymptoms_sent: "sent (run_effects p (fetchSymptoms s out)) = sent p @ [symptom_request s]"
  by (rule fetchSymptoms_cases[of out s]) (simp_all add: run_effects_def)

lemma run_fetchSymptoms_input: "input_value (run_effects p (fetchSymptoms s out)) = input_value p"
  by (rule fetchSymptoms_cases[of out s]) (simp_all add: run_effects_def)

lemma run_fetchSymptoms_revealed:
  "''hidden'' \<notin> classes (run_effects p (fetchSymptoms s out)) ResultContainer"
  by (rule fetchSymptoms_cases[of out s]) (simp_all add: run_effects_def)

lemma run_fetchSymptoms_failure_page:
  assumes "fetchSymptoms_try out = Inl e"
  shows "inner_html (run_effects p (fetchSymptoms s out)) ResultsList = error_html"
    and "console (run_effects p (fetchSymptoms s out)) = console p @ [(''Error fetching data:'', e)]"
  using fetchSymptoms_failure[OF assms, of s] by (simp_all add: run_effects_def)

lemma fetchSymptoms_sending_state:
  "take 3 (fetchSymptoms s out) = [ClassAdd ResultContainer ''hidden'',
      SetInnerHTML ResultsList searching_html, Fetch (symptom_request s)]"
  by (simp add: fetchSymptoms_def)

lemma try_rejected: "fetchSymptoms_try (FetchRejected e) = Inl e"
  by (simp add: fetchSymptoms_try_def)

lemma try_bad_status:
  "\<not> response_ok status \<Longrightarrow> fetchSymptoms_try (Responded status b) =
     Inl (Error (''HTTP error! status: '' @ int_digits (int status)))"
  by (simp add: fetchSymptoms_try_def)

lemma try_bad_json:
  "response_ok status \<Longrightarrow> fetchSymptoms_try (Responded status (JsonRejected e)) = Inl e"
  by (simp add: fetchSymptoms_try_def)

lemma try_null:
  "response_ok status \<Longrightarrow> fetchSymptoms_try (Responded status (JsonParsed JNull)) = Inl TypeError"
  by (simp add: fetchSymptoms_try_def displayResults_def bind_exn_def)

lemma error_html_text:
  \<open>error_html = ''<div class="bg-red-100 text-red-700 p-4 rounded-lg">'' @
     ''An error occurred. Please try again later.'' @ ''</div>''\<close>
  by (simp add: error_html_def)

lemma json_quote_plain:
  "list_all json_plain s \<Longrightarrow> json_quote s = [CHR 0x22] @ s @ [CHR 0x22]"
proof -
  assume a: "list_all json_plain s"
  have "concat (map json_escape s) = s" using a
  proof (induction s)
    case Nil
    then show ?case by simp
  next
    case (Cons c cs)
    then have "json_plain c" by simp
    then have "json_escape c = [c]"
      by (auto simp: json_plain_def json_escape_def Let_def)
    then show ?case using Cons by simp
  qed
  then show ?thesis by (simp add: json_quote_def)
qed

lemma trim_all_ws: "list_all is_ws v \<Longrightarrow> trim v = []"
proof -
  assume "list_all is_ws v"
  then have d: "dropWhile is_ws v = []" by (induction v) auto
  show ?thesis unfolding trim_def d by simp
qed

lemma primitive_to_string: "is_primitive v \<Longrightarrow> \<exists>s. to_string v = Inr s"
  by (cases v) auto

lemma primitive_to_number: "is_primitive v \<Longrightarrow> \<exists>n. to_number v = Inr n"
  by (cases v) auto

lemma displayResults_object:
  assumes "to_string (own_property kvs ''diagnosis'') = Inr d"
    and "to_number (own_property kvs ''confidence'') = Inr c"
    and "to_string (own_property kvs ''recommendation'') = Inr r"
  shows "displayResults (JObj kvs) =
    Inr [SetInnerHTML ResultsList (results_template d (confidence_percent c) r)]"
  using assms by (simp add: displayResults_def bind_exn_def)

lemma percent_nan: "confidence_percent NaN = ''NaN''"
  by (simp add: confidence_percent_def)

lemma searching_state:
  "''hidden'' \<in> classes (run_effects p [ClassAdd ResultContainer ''hidden'',
       SetInnerHTML ResultsList searching_html]) ResultContainer
   \<and> inner_html (run_effects p [ClassAdd ResultContainer ''hidden'',
       SetInnerHTML ResultsList searching_html]) ResultsList = searching_html"
  by (simp add: run_effects_def)

lemma searching_html_text:
  \<open>searching_html = ''<div class="text-center text-gray-500">'' @ ''Searching...'' @ ''</div>''\<close>
  by (simp add: searching_html_def)

lemma fetchSymptoms_shape:
  "\<exists>mid. fetchSymptoms s out =
     [ClassAdd ResultContainer ''hidden'', SetInnerHTML ResultsList searching_html,
      Fetch (symptom_request s)] @ mid @ [ClassRemove ResultContainer ''hidden'']
     \<and> requests_of mid = []"
proof (rule fetchSymptoms_cases[of out s])
  fix e
  assume "fetchSymptoms s out =
        [ClassAdd ResultContainer ''hidden'', SetInnerHTML ResultsList searching_html,
         Fetch (symptom_request s),
         ConsoleError ''Error fetching data:'' e, SetInnerHTML ResultsList error_html,
         ClassRemove ResultContainer ''hidden'']"
  then have "fetchSymptoms s out =
     [ClassAdd ResultContainer ''hidden'', SetInnerHTML ResultsList searching_html,
      Fetch (symptom_request s)] @ [ConsoleError ''Error fetching data:'' e,
      SetInnerHTML ResultsList error_html] @ [ClassRemove ResultContainer ''hidden'']
     \<and> requests_of [ConsoleError ''Error fetching data:'' e,
      SetInnerHTML ResultsList error_html] = []"
    by (simp add: requests_of_def)
  then show ?thesis by blast
next
  fix h
  assume "fetchSymptoms s out =
        [ClassAdd ResultContainer ''hidden'', SetInnerHTML ResultsList searching_html,
         Fetch (symptom_request s),
         SetInnerHTML ResultsList h,
         ClassRemove ResultContainer ''hidden'']"
  then have "fetchSymptoms s out =
     [ClassAdd ResultContainer ''hidden'', SetInnerHTML ResultsList searching_html,
      Fetch (symptom_request s)] @ [SetInnerHTML ResultsList h] @
      [ClassRemove ResultContainer ''hidden'']
     \<and> requests_of [SetInnerHTML ResultsList h] = []"
    by (simp add: requests_of_def)
  then show ?thesis by blast
qed

text \<open>
  C1. Whatever the query and whatever the network does, the effects of \<open>fetchSymptoms\<close> are,
  in this order: the results container is hidden, the results list is set to the
  \<open>Searching...\<close> placeholder, the request is sent (and no other request after it), the
  outcome is handled, and last the results container is revealed. When the \<open>try\<close> block
  throws \<open>e\<close>, which it does when \<open>fetch\<close> rejects, when the status is not a success and
  when the body is not JSON, the handling is to log \<open>e\<close> on the console and to set the
  results list to the fixed error message, which does not depend on \<open>e\<close>. The placeholder
  is a \<open>div\<close> with the text \<open>Searching...\<close>, the error message a \<open>div\<close> with the text
  \<open>An error occurred. Please try again later.\<close>
\<close>

theorem fetchSymptoms_sequence:
  \<open>searching_html = ''<div class="text-center text-gray-500">Searching...</div>''
   \<and> error_html = ''<div class="bg-red-100 text-red-700 p-4 rounded-lg">An error occurred. Please try again later.</div>''
   \<and> (\<exists>mid. fetchSymptoms s out =
       [ClassAdd ResultContainer ''hidden'', SetInnerHTML ResultsList searching_html,
        Fetch (symptom_request s)] @ mid @ [ClassRemove ResultContainer ''hidden'']
       \<and> requests_of mid = [])
   \<and> ''hidden'' \<in> classes (run_effects p [ClassAdd ResultContainer ''hidden'',
         SetInnerHTML ResultsList searching_html]) ResultContainer
   \<and> inner_html (run_effects p [ClassAdd ResultContainer ''hidden'',
         SetInnerHTML ResultsList searching_html]) ResultsList = searching_html
   \<and> (fetchSymptoms_try out = Inl e \<longrightarrow>
        fetchSymptoms s out =
          [ClassAdd ResultContainer ''hidden'', SetInnerHTML ResultsList searching_html,
           Fetch (symptom_request s),
           ConsoleError ''Error fetching data:'' e, SetInnerHTML ResultsList error_html,
           ClassRemove ResultContainer ''hidden'']
        \<and> inner_html (run_effects p (fetchSymptoms s out)) ResultsList = error_html
        \<and> console (run_effects p (fetchSymptoms s out)) =
            console p @ [(''Error fetching data:'', e)])
   \<and> fetchSymptoms_try (FetchRejected e) = Inl e
   \<and> (\<not> response_ok status \<longrightarrow> fetchSymptoms_try (Responded status b) =
        Inl (Error (''HTTP error! status: '' @ int_digits (int status))))
   \<and> (response_ok status \<longrightarrow> fetchSymptoms_try (Responded status (JsonRejected e)) = Inl e)
   \<and> ''hidden'' \<notin> classes (run_effects p (fetchSymptoms s out)) ResultContainer\<close>
proof -
  have main: "(\<exists>mid. fetchSymptoms s out =
       [ClassAdd ResultContainer ''hidden'', SetInnerHTML ResultsList searching_html,
        Fetch (symptom_request s)] @ mid @ [ClassRemove ResultContainer ''hidden'']
       \<and> requests_of mid = [])
   \<and> ''hidden'' \<in> classes (run_effects p [ClassAdd ResultContainer ''hidden'',
         SetInnerHTML ResultsList searching_html]) ResultContainer
   \<and> inner_html (run_effects p [ClassAdd ResultContainer ''hidden'',
         SetInnerHTML ResultsList searching_html]) ResultsList = searching_html
   \<and> (fetchSymptoms_try out = Inl e \<longrightarrow>
        fetchSymptoms s out =
          [ClassAdd ResultContainer ''hidden'', SetInnerHTML ResultsList searching_html,
           Fetch (symptom_request s),
           ConsoleError ''Error fetching data:'' e, SetInnerHTML ResultsList error_html,
           ClassRemove ResultContainer ''hidden'']
        \<and> inner_html (run_effects p (fetchSymptoms s out)) ResultsList = error_html
        \<and> console (run_effects p (fetchSymptoms s out)) =
            console p @ [(''Error fetching data:'', e)])
   \<and> fetchSymptoms_try (FetchRejected e) = Inl e
   \<and> (\<not> response_ok status \<longrightarrow> fetchSymptoms_try (Responded status b) =
        Inl (Error (''HTTP error! status: '' @ int_digits (int status))))
   \<and> (response_ok status \<longrightarrow> fetchSymptoms_try (Responded status (JsonRejected e)) = Inl e)
   \<and> ''hidden'' \<notin> classes (run_effects p (fetchSymptoms s out)) ResultContainer"
    using fetchSymptoms_shape[of s out] searching_state[of p] fetchSymptoms_failure[of out e s]
      run_fetchSymptoms_failure_page[of out e p s] try_rejected[of e] try_bad_status[of status b]
      try_bad_json[of status e] run_fetchSymptoms_revealed[of p s out]
    by blast
  show ?thesis
    by (rule conjI[OF searching_html_def conjI[OF error_html_def main]])
qed

theorem fetchSymptoms_sequence_witness:
  \<open>fetchSymptoms ''fever'' (Responded 500 (JsonParsed JNull)) =
     [ClassAdd ResultContainer ''hidden'',
      SetInnerHTML ResultsList ''<div class="text-center text-gray-500">Searching...</div>'',
      Fetch (symptom_request ''fever''),
      ConsoleError ''Error fetching data:'' (Error ''HTTP error! status: 500''),
      SetInnerHTML ResultsList
        ''<div class="bg-red-100 text-red-700 p-4 rounded-lg">An error occurred. Please try again later.</div>'',
      ClassRemove ResultContainer ''hidden'']
   \<and> inner_html (run_effects blank_page (fetchSymptoms ''fever'' (Responded 500 (JsonParsed JNull))))
       ResultsList =
         ''<div class="bg-red-100 text-red-700 p-4 rounded-lg">An error occurred. Please try again later.</div>''
   \<and> ''hidden'' \<notin> classes (run_effects blank_page
         (fetchSymptoms ''fever'' (Responded 500 (JsonParsed JNull)))) ResultContainer\<close>
proof -
  have t: "fetchSymptoms_try (Responded 500 (JsonParsed JNull)) = Inl (Error ''HTTP error! status: 500'')"
    by code_simp
  note inst = fetchSymptoms_sequence[where s = "''fever''"
      and out = "Responded 500 (JsonParsed JNull)" and p = blank_page
      and e = "Error ''HTTP error! status: 500''" and status = 500 and b = "JsonParsed JNull"]
  have s: \<open>searching_html = ''<div class="text-center text-gray-500">Searching...</div>''\<close>
    using inst by (rule conjunct1)
  have e: \<open>error_html = ''<div class="bg-red-100 text-red-700 p-4 rounded-lg">An error occurred. Please try again later.</div>''\<close>
    using inst by blast
  have r: \<open>fetchSymptoms ''fever'' (Responded 500 (JsonParsed JNull)) =
          [ClassAdd ResultContainer ''hidden'', SetInnerHTML ResultsList searching_html,
           Fetch (symptom_request ''fever''),
           ConsoleError ''Error fetching data:'' (Error ''HTTP error! status: 500''),
           SetInnerHTML ResultsList error_html,
           ClassRemove ResultContainer ''hidden'']
        \<and> inner_html (run_effects blank_page (fetchSymptoms ''fever'' (Responded 500 (JsonParsed JNull))))
             ResultsList = error_html
        \<and> ''hidden'' \<notin> classes (run_effects blank_page
         (fetchSymptoms ''fever'' (Responded 500 (JsonParsed JNull)))) ResultContainer\<close>
    using inst t by blast
  show ?thesis using r unfolding s e .
qed

lemma symptom_request_fields:
  \<open>symptom_request s = \<lparr>req_url = ''http://127.0.0.1:8000/check-symptoms'',
      req_method = ''POST'', req_headers = [(''Content-Type'', ''application/json'')],
      req_body = ''{"symptoms":'' @ json_quote s @ ''}''\<rparr>\<close>
proof -
  have \<open>json_quote ''symptoms'' = ''"symptoms"''\<close> by code_simp
  then show ?thesis by (simp add: symptom_request_def stringify_query_def)
qed

lemma plain_body:
  \<open>list_all json_plain s \<Longrightarrow> req_body (symptom_request s) = ''{"symptoms":"'' @ s @ ''"}''\<close>
  by (simp add: symptom_request_fields json_quote_plain)

lemma searchBtn_click_nonempty:
  "trim (input_value p SearchInput) \<noteq> [] \<Longrightarrow>
   searchBtn_click p out = fetchSymptoms (trim (input_value p SearchInput)) out"
  by (simp add: searchBtn_click_def Let_def)

lemma searchBtn_click_empty:
  "trim (input_value p SearchInput) = [] \<Longrightarrow> searchBtn_click p out = []"
  by (simp add: searchBtn_click_def Let_def)

lemma symptomTag_click_effects:
  "symptomTag_click label out = SetValue SearchInput label # fetchSymptoms label out"
  by (simp add: symptomTag_click_def Let_def)

lemma requests_of_tag: "requests_of (symptomTag_click label out) = [symptom_request label]"
  using requests_of_fetchSymptoms[of label out]
  by (simp add: symptomTag_click_effects requests_of_def)

text \<open>
  C2. A click on the search button with an input that is not empty once trimmed, a click on
  a tag whose text is trimmed and not empty, and every call of \<open>fetchSymptoms\<close> send exactly
  one request: a POST to \<open>http://127.0.0.1:8000/check-symptoms\<close> with the one header
  \<open>Content-Type: application/json\<close> and the body \<open>{"symptoms":\<close> \<^emph>\<open>the trimmed input as a JSON
  string\<close> \<open>}\<close>; for a text without quotes, backslashes and control characters the JSON string
  is the text between double quotes.
\<close>

theorem one_request_per_trigger:
  \<open>(trim (input_value p SearchInput) \<noteq> [] \<longrightarrow>
      requests_of (searchBtn_click p out) = [symptom_request (trim (input_value p SearchInput))]
      \<and> sent (run_effects p (searchBtn_click p out)) =
          sent p @ [symptom_request (trim (input_value p SearchInput))])
   \<and> (trim label = label \<and> label \<noteq> [] \<longrightarrow>
      requests_of (symptomTag_click label out) = [symptom_request (trim label)])
   \<and> requests_of (fetchSymptoms s out) = [symptom_request s]
   \<and> symptom_request s = \<lparr>req_url = ''http://127.0.0.1:8000/check-symptoms'',
        req_method = ''POST'', req_headers = [(''Content-Type'', ''application/json'')],
        req_body = ''{"symptoms":'' @ json_quote s @ ''}''\<rparr>
   \<and> (list_all json_plain s \<longrightarrow> req_body (symptom_request s) = ''{"symptoms":"'' @ s @ ''"}'')\<close>
  using searchBtn_click_nonempty[of p out] requests_of_fetchSymptoms
    run_fetchSymptoms_sent[of p "trim (input_value p SearchInput)" out]
    requests_of_tag[of label out] symptom_request_fields[of s] plain_body[of s]
  by auto

theorem one_request_per_trigger_witness:
  \<open>requests_of (searchBtn_click (blank_page\<lparr>input_value := (\<lambda>e. ''  sore throat '')\<rparr>)
       (FetchRejected TypeError)) = [symptom_request ''sore throat'']
   \<and> requests_of (symptomTag_click ''Cough'' (FetchRejected TypeError)) = [symptom_request ''Cough'']
   \<and> req_body (symptom_request ''Cough'') = ''{"symptoms":"'' @ ''Cough'' @ ''"}''\<close>
proof -
  define p where "p = blank_page\<lparr>input_value := (\<lambda>e. ''  sore throat '')\<rparr>"
  have t: "trim ''  sore throat '' = ''sore throat''" "trim ''Cough'' = ''Cough''"
    by code_simp+
  have pl: "list_all json_plain ''Cough''"
    by code_simp
  have v: "trim (input_value p SearchInput) = ''sore throat''"
    by (simp add: p_def t)
  have ne: "trim (input_value p SearchInput) \<noteq> []"
    by (simp add: v)
  have c: "trim ''Cough'' = ''Cough'' \<and> ''Cough'' \<noteq> []"
    by (simp add: t)
  note inst = one_request_per_trigger[of p "FetchRejected TypeError" "''Cough''" "''Cough''"]
  have "requests_of (searchBtn_click p (FetchRejected TypeError)) =
      [symptom_request (trim (input_value p SearchInput))]"
    using inst ne by blast
  then have 1: "requests_of (searchBtn_click p (FetchRejected TypeError)) = [symptom_request ''sore throat'']"
    by (simp only: v)
  have "requests_of (symptomTag_click ''Cough'' (FetchRejected TypeError)) = [symptom_request (trim ''Cough'')]"
    using inst c by blast
  then have 2: "requests_of (symptomTag_click ''Cough'' (FetchRejected TypeError)) = [symptom_request ''Cough'']"
    by (simp only: t)
  have 3: \<open>req_body (symptom_request ''Cough'') = ''{"symptoms":"'' @ ''Cough'' @ ''"}''\<close>
    using inst pl by blast
  show ?thesis using 1 2 3 unfolding p_def by blast
qed

lemma run_tag_click:
  "input_value (run_effects p (symptomTag_click label out)) SearchInput = label
   \<and> sent (run_effects p (symptomTag_click label out)) = sent p @ [symptom_request label]"
proof -
  define q where "q = apply_effect p (SetValue SearchInput label)"
  have "run_effects p (symptomTag_click label out) = run_effects q (fetchSymptoms label out)"
    by (simp add: symptomTag_click_effects run_effects_def q_def)
  moreover have "input_value q SearchInput = label" "sent q = sent p" by (simp_all add: q_def)
  ultimately show ?thesis
    by (simp add: run_fetchSymptoms_input run_fetchSymptoms_sent)
qed

lemma fever_body: \<open>req_body (symptom_request ''Fever'') = ''{"symptoms":"Fever"}''\<close>
  by code_simp

text \<open>
  C7. A click on the tag whose text is \<open>Fever\<close> sets the value of the search input to
  \<open>Fever\<close> and, in the same handler, sends the one request with the body
  \<open>{"symptoms":"Fever"}\<close>.
\<close>

theorem fever_tag_click:
  \<open>symptomTag_click ''Fever'' out = SetValue SearchInput ''Fever'' # fetchSymptoms ''Fever'' out
   \<and> requests_of (symptomTag_click ''Fever'' out) = [symptom_request ''Fever'']
   \<and> req_url (symptom_request ''Fever'') = ''http://127.0.0.1:8000/check-symptoms''
   \<and> req_method (symptom_request ''Fever'') = ''POST''
   \<and> req_body (symptom_request ''Fever'') = ''{"symptoms":"Fever"}''
   \<and> input_value (run_effects p (symptomTag_click ''Fever'' out)) SearchInput = ''Fever''
   \<and> sent (run_effects p (symptomTag_click ''Fever'' out)) = sent p @ [symptom_request ''Fever'']\<close>
proof -
  have 1: "symptomTag_click ''Fever'' out = SetValue SearchInput ''Fever'' # fetchSymptoms ''Fever'' out"
    by (rule symptomTag_click_effects)
  have 2: "requests_of (symptomTag_click ''Fever'' out) = [symptom_request ''Fever'']"
    by (rule requests_of_tag)
  have 3: "req_url (symptom_request ''Fever'') = ''http://127.0.0.1:8000/check-symptoms''"
    by (simp add: symptom_request_def)
  have 4: "req_method (symptom_request ''Fever'') = ''POST''"
    by (simp add: symptom_request_def)
  show ?thesis
    using 1 2 3 4 fever_body run_tag_click[of p "''Fever''" out] by blast
qed

theorem fever_tag_click_witness:
  \<open>input_value (run_effects blank_page (symptomTag_click ''Fever'' (FetchRejected TypeError)))
     SearchInput = ''Fever''
   \<and> sent (run_effects blank_page (symptomTag_click ''Fever'' (FetchRejected TypeError))) =
       sent blank_page @ [symptom_request ''Fever'']\<close>
  using fever_tag_click[of "FetchRejected TypeError" blank_page] by blast

text \<open>
  The handler of a tag neither trims nor tests its text: the tag with the text \<open>Fever\<close>
  between two spaces sends the spaces, and a tag of two spaces sends a request.
\<close>

theorem tag_sends_untrimmed_counterexample:
  \<open>requests_of (symptomTag_click '' Fever '' (FetchRejected TypeError)) =
     [symptom_request '' Fever '']
   \<and> req_body (symptom_request '' Fever '') = ''{"symptoms":" Fever "}''
   \<and> trim '' Fever '' = ''Fever''
   \<and> req_body (symptom_request ''Fever'') = ''{"symptoms":"Fever"}''
   \<and> trim ''  '' = []
   \<and> requests_of (symptomTag_click ''  '' (FetchRejected TypeError)) = [symptom_request ''  '']\<close>
proof -
  have 1: \<open>req_body (symptom_request '' Fever '') = ''{"symptoms":" Fever "}''\<close> by code_simp
  have 2: "trim '' Fever '' = ''Fever''" by code_simp
  have 3: "trim ''  '' = []" by code_simp
  show ?thesis
    using 1 2 3 fever_body requests_of_tag[of "'' Fever ''" "FetchRejected TypeError"]
      requests_of_tag[of "''  ''" "FetchRejected TypeError"]
    by blast
qed

text \<open>
  C3, as the code has it. The search button sends the trimmed text and sends nothing, and
  does nothing at all, when the text is empty once trimmed, as it is for an empty or
  white-space-only input. A tag always sends one request with its text as it is, which is
  the trimmed text when the text has no white space around it.
\<close>

theorem input_wiring:
  "requests_of (searchBtn_click p out) =
     (if trim (input_value p SearchInput) = [] then []
      else [symptom_request (trim (input_value p SearchInput))])
   \<and> (trim (input_value p SearchInput) = [] \<longrightarrow> searchBtn_click p out = [])
   \<and> (list_all is_ws (input_value p SearchInput) \<longrightarrow> searchBtn_click p out = [])
   \<and> requests_of (symptomTag_click label out) = [symptom_request label]
   \<and> (trim label = label \<longrightarrow>
        requests_of (symptomTag_click label out) = [symptom_request (trim label)])"
proof -
  have 1: "requests_of (searchBtn_click p out) =
     (if trim (input_value p SearchInput) = [] then []
      else [symptom_request (trim (input_value p SearchInput))])"
    by (simp add: searchBtn_click_def Let_def requests_of_fetchSymptoms) (simp add: requests_of_def)
  have 2: "trim (input_value p SearchInput) = [] \<longrightarrow> searchBtn_click p out = []"
    by (simp add: searchBtn_click_empty)
  have 3: "list_all is_ws (input_value p SearchInput) \<longrightarrow> searchBtn_click p out = []"
    using trim_all_ws[of "input_value p SearchInput"] by (simp add: searchBtn_click_empty)
  have 4: "requests_of (symptomTag_click label out) = [symptom_request label]"
    by (rule requests_of_tag)
  have 5: "trim label = label \<longrightarrow>
        requests_of (symptomTag_click label out) = [symptom_request (trim label)]"
    using 4 by simp
  show ?thesis using 1 2 3 4 5 by blast
qed

theorem input_wiring_witness:
  "searchBtn_click (blank_page\<lparr>input_value := (\<lambda>e. ''   '')\<rparr>) (FetchRejected TypeError) = []
   \<and> requests_of (symptomTag_click ''Fever'' (FetchRejected TypeError)) =
       [symptom_request (trim ''Fever'')]"
proof -
  define p where "p = blank_page\<lparr>input_value := (\<lambda>e. ''   '')\<rparr>"
  have ws: "list_all is_ws (input_value p SearchInput)"
    by (simp add: p_def is_ws_def)
  have t: "trim ''Fever'' = ''Fever''" by code_simp
  note inst = input_wiring[of p "FetchRejected TypeError" "''Fever''"]
  have 1: "searchBtn_click p (FetchRejected TypeError) = []"
    using inst ws by blast
  have 2: "requests_of (symptomTag_click ''Fever'' (FetchRejected TypeError)) =
       [symptom_request (trim ''Fever'')]"
    using inst t by blast
  show ?thesis using 1 2 unfolding p_def by blast
qed

lemma empty_object_rendered:
  "fetchSymptoms_try (Responded 200 (JsonParsed (JObj []))) =
     Inr [SetInnerHTML ResultsList (results_template ''undefined'' ''NaN'' ''undefined'')]"
proof -
  have "response_ok 200" by (simp add: response_ok_def)
  moreover have "displayResults (JObj []) =
     Inr [SetInnerHTML ResultsList (results_template ''undefined'' ''NaN'' ''undefined'')]"
    using displayResults_object[of "[]" "''undefined''" NaN "''undefined''"]
    by (simp add: own_property_def percent_nan)
  ultimately show ?thesis by (simp add: fetchSymptoms_try_def)
qed

lemma template_not_error: "results_template d pc r \<noteq> error_html"
  by (simp add: results_template_def error_html_def)

text \<open>
  A response with status 200 whose body is the empty object is rendered: no exception, no
  console message, and the results list shows \<open>undefined\<close>, \<open>NaN%\<close> and \<open>undefined\<close>, not the
  error message.
\<close>

theorem missing_fields_rendered_counterexample:
  "response_ok 200
   \<and> fetchSymptoms ''fever'' (Responded 200 (JsonParsed (JObj []))) =
     [ClassAdd ResultContainer ''hidden'', SetInnerHTML ResultsList searching_html,
      Fetch (symptom_request ''fever''),
      SetInnerHTML ResultsList (results_template ''undefined'' ''NaN'' ''undefined''),
      ClassRemove ResultContainer ''hidden'']
   \<and> results_template ''undefined'' ''NaN'' ''undefined'' \<noteq> error_html
   \<and> requests_of (fetchSymptoms ''fever'' (Responded 200 (JsonParsed (JObj [])))) =
       [symptom_request ''fever'']"
proof -
  have ok: "response_ok 200" by (simp add: response_ok_def)
  have f: "fetchSymptoms ''fever'' (Responded 200 (JsonParsed (JObj []))) =
     [ClassAdd ResultContainer ''hidden'', SetInnerHTML ResultsList searching_html,
      Fetch (symptom_request ''fever''),
      SetInnerHTML ResultsList (results_template ''undefined'' ''NaN'' ''undefined''),
      ClassRemove ResultContainer ''hidden'']"
    by (simp add: fetchSymptoms_def empty_object_rendered)
  show ?thesis
    using ok f template_not_error[of "''undefined''" "''NaN''" "''undefined''"]
      requests_of_fetchSymptoms[of "''fever''" "Responded 200 (JsonParsed (JObj []))"]
    by blast
qed

text \<open>
  C4, as the code has it. With a success status, a body that is not JSON and a body that is
  \<open>null\<close> are handled as a rejected \<open>fetch\<close> is: the exception is logged and the fixed
  error message shown. A body that is an object is not validated: when each of
  \<open>diagnosis\<close>, \<open>confidence\<close> and \<open>recommendation\<close> is missing or a primitive value, the
  result is rendered from their conversions, never the error message; a missing property is
  \<open>undefined\<close>, which prints as \<open>undefined\<close> and as the percentage \<open>NaN\<close>.
\<close>

theorem malformed_body_handling:
  "(response_ok status \<longrightarrow>
      fetchSymptoms s (Responded status (JsonRejected e)) = fetchSymptoms s (FetchRejected e))
   \<and> (response_ok status \<longrightarrow>
      fetchSymptoms s (Responded status (JsonParsed JNull)) = fetchSymptoms s (FetchRejected TypeError))
   \<and> fetchSymptoms s (FetchRejected e) =
       [ClassAdd ResultContainer ''hidden'', SetInnerHTML ResultsList searching_html,
        Fetch (symptom_request s),
        ConsoleError ''Error fetching data:'' e, SetInnerHTML ResultsList error_html,
        ClassRemove ResultContainer ''hidden'']
   \<and> (response_ok status \<and> is_primitive (own_property kvs ''diagnosis'')
        \<and> is_primitive (own_property kvs ''confidence'')
        \<and> is_primitive (own_property kvs ''recommendation'') \<longrightarrow>
      (\<exists>d c r. to_string (own_property kvs ''diagnosis'') = Inr d
         \<and> to_number (own_property kvs ''confidence'') = Inr c
         \<and> to_string (own_property kvs ''recommendation'') = Inr r
         \<and> fetchSymptoms s (Responded status (JsonParsed (JObj kvs))) =
             [ClassAdd ResultContainer ''hidden'', SetInnerHTML ResultsList searching_html,
              Fetch (symptom_request s),
              SetInnerHTML ResultsList (results_template d (confidence_percent c) r),
              ClassRemove ResultContainer ''hidden'']))
   \<and> (map_of kvs k = None \<longrightarrow> own_property kvs k = JUndefined)
   \<and> to_string JUndefined = Inr ''undefined''
   \<and> to_number JUndefined = Inr NaN
   \<and> confidence_percent NaN = ''NaN''
   \<and> results_template d' pc' r' \<noteq> error_html"
proof -
  have 1: "response_ok status \<longrightarrow>
      fetchSymptoms s (Responded status (JsonRejected e)) = fetchSymptoms s (FetchRejected e)"
    by (simp add: fetchSymptoms_def try_bad_json try_rejected)
  have 2: "response_ok status \<longrightarrow>
      fetchSymptoms s (Responded status (JsonParsed JNull)) = fetchSymptoms s (FetchRejected TypeError)"
    by (simp add: fetchSymptoms_def try_null try_rejected)
  have 3: "fetchSymptoms s (FetchRejected e) =
       [ClassAdd ResultContainer ''hidden'', SetInnerHTML ResultsList searching_html,
        Fetch (symptom_request s),
        ConsoleError ''Error fetching data:'' e, SetInnerHTML ResultsList error_html,
        ClassRemove ResultContainer ''hidden'']"
    by (simp add: fetchSymptoms_failure try_rejected)
  have 4: "response_ok status \<and> is_primitive (own_property kvs ''diagnosis'')
        \<and> is_primitive (own_property kvs ''confidence'')
        \<and> is_primitive (own_property kvs ''recommendation'') \<longrightarrow>
      (\<exists>d c r. to_string (own_property kvs ''diagnosis'') = Inr d
         \<and> to_number (own_property kvs ''confidence'') = Inr c
         \<and> to_string (own_property kvs ''recommendation'') = Inr r
         \<and> fetchSymptoms s (Responded status (JsonParsed (JObj kvs))) =
             [ClassAdd ResultContainer ''hidden'', SetInnerHTML ResultsList searching_html,
              Fetch (symptom_request s),
              SetInnerHTML ResultsList (results_template d (confidence_percent c) r),
              ClassRemove ResultContainer ''hidden''])"
  proof (intro impI, elim conjE)
    assume ok: "response_ok status"
      and p1: "is_primitive (own_property kvs ''diagnosis'')"
      and p2: "is_primitive (own_property kvs ''confidence'')"
      and p3: "is_primitive (own_property kvs ''recommendation'')"
    obtain d where d: "to_string (own_property kvs ''diagnosis'') = Inr d"
      using primitive_to_string[OF p1] by blast
    obtain c where c: "to_number (own_property kvs ''confidence'') = Inr c"
      using primitive_to_number[OF p2] by blast
    obtain r where r: "to_string (own_property kvs ''recommendation'') = Inr r"
      using primitive_to_string[OF p3] by blast
    note dcr = d c r
    have "fetchSymptoms_try (Responded status (JsonParsed (JObj kvs))) =
        Inr [SetInnerHTML ResultsList (results_template d (confidence_percent c) r)]"
      using ok displayResults_object[OF dcr] by (simp add: fetchSymptoms_try_def)
    then have "fetchSymptoms s (Responded status (JsonParsed (JObj kvs))) =
             [ClassAdd ResultContainer ''hidden'', SetInnerHTML ResultsList searching_html,
              Fetch (symptom_request s),
              SetInnerHTML ResultsList (results_template d (confidence_percent c) r),
              ClassRemove ResultContainer ''hidden'']"
      by (simp add: fetchSymptoms_def)
    then show "\<exists>d c r. to_string (own_property kvs ''diagnosis'') = Inr d
         \<and> to_number (own_property kvs ''confidence'') = Inr c
         \<and> to_string (own_property kvs ''recommendation'') = Inr r
         \<and> fetchSymptoms s (Responded status (JsonParsed (JObj kvs))) =
             [ClassAdd ResultContainer ''hidden'', SetInnerHTML ResultsList searching_html,
              Fetch (symptom_request s),
              SetInnerHTML ResultsList (results_template d (confidence_percent c) r),
              ClassRemove ResultContainer ''hidden'']"
      using dcr by blast
  qed
  have 5: "map_of kvs k = None \<longrightarrow> own_property kvs k = JUndefined"
    by (simp add: own_property_def)
  have 6: "to_string JUndefined = Inr ''undefined''" "to_number JUndefined = Inr NaN"
    by simp_all
  show ?thesis by (intro conjI 1 2 3 4 5 6 percent_nan template_not_error)
qed

theorem malformed_body_handling_witness:
  "fetchSymptoms ''fever'' (Responded 200 (JsonRejected SyntaxError)) =
     fetchSymptoms ''fever'' (FetchRejected SyntaxError)
   \<and> (\<exists>d c r. fetchSymptoms ''fever''
         (Responded 200 (JsonParsed (JObj [(''diagnosis'', JStr ''Flu'')]))) =
       [ClassAdd ResultContainer ''hidden'', SetInnerHTML ResultsList searching_html,
        Fetch (symptom_request ''fever''),
        SetInnerHTML ResultsList (results_template d (confidence_percent c) r),
        ClassRemove ResultContainer ''hidden''])"
proof -
  define kvs where "kvs = [(''diagnosis'', JStr ''Flu'')]"
  have ok: "response_ok 200" by (simp add: response_ok_def)
  have pr: "is_primitive (own_property kvs ''diagnosis'')"
    "is_primitive (own_property kvs ''confidence'')"
    "is_primitive (own_property kvs ''recommendation'')"
    by (simp_all add: kvs_def own_property_def)
  note inst = malformed_body_handling[of 200 "''fever''" SyntaxError kvs]
  have 1: "fetchSymptoms ''fever'' (Responded 200 (JsonRejected SyntaxError)) =
     fetchSymptoms ''fever'' (FetchRejected SyntaxError)"
    using inst ok by blast
  have 2: "\<exists>d c r. fetchSymptoms ''fever'' (Responded 200 (JsonParsed (JObj kvs))) =
       [ClassAdd ResultContainer ''hidden'', SetInnerHTML ResultsList searching_html,
        Fetch (symptom_request ''fever''),
        SetInnerHTML ResultsList (results_template d (confidence_percent c) r),
        ClassRemove ResultContainer ''hidden'']"
    using inst ok pr by blast
  show ?thesis using 1 2 unfolding kvs_def by blast
qed

section \<open>The tilt effect\<close>

lemma clamp_FinD:
  assumes "clamp v = Fin c"
  shows "0 \<le> c \<and> c \<le> 1"
proof -
  have "v \<noteq> NaN" using assms clamp_NaN by auto
  then have "in_range 0 1 (clamp v)" by (rule clamp_range)
  then show ?thesis unfolding assms by simp
qed

lemma normalized_examples:
  "clamp (normalized_x (MouseEvent (Fin 160) (Fin 45))
      \<lparr>rect_left = Fin 10, rect_top = Fin 20, rect_width = Fin 200, rect_height = Fin 100\<rparr>) = Fin (3 / 4)"
  "clamp (normalized_y (MouseEvent (Fin 160) (Fin 45))
      \<lparr>rect_left = Fin 10, rect_top = Fin 20, rect_width = Fin 200, rect_height = Fin 100\<rparr>) = Fin (1 / 4)"
  "clamp (normalized_x (TouchEvent [(Fin 500, Fin (- 30))])
      \<lparr>rect_left = Fin 10, rect_top = Fin 20, rect_width = Fin 200, rect_height = Fin 100\<rparr>) = Fin 1"
  "clamp (normalized_y (TouchEvent [(Fin 500, Fin (- 30))])
      \<lparr>rect_left = Fin 10, rect_top = Fin 20, rect_width = Fin 200, rect_height = Fin 100\<rparr>) = Fin 0"
  "clamp (normalized_x (MouseEvent (Fin 160) (Fin 70))
      \<lparr>rect_left = Fin 10, rect_top = Fin 20, rect_width = Fin 200, rect_height = Fin 100\<rparr>) = Fin (3 / 4)"
  "clamp (normalized_y (MouseEvent (Fin 160) (Fin 70))
      \<lparr>rect_left = Fin 10, rect_top = Fin 20, rect_width = Fin 200, rect_height = Fin 100\<rparr>) = Fin (1 / 2)"
  "clamp (normalized_x (MouseEvent (Fin 110) (Fin 70))
      \<lparr>rect_left = Fin 10, rect_top = Fin 20, rect_width = Fin 200, rect_height = Fin 100\<rparr>) = Fin (1 / 2)"
  "clamp (normalized_y (MouseEvent (Fin 110) (Fin 70))
      \<lparr>rect_left = Fin 10, rect_top = Fin 20, rect_width = Fin 200, rect_height = Fin 100\<rparr>) = Fin (1 / 2)"
  "clamp (normalized_x (MouseEvent (Fin 10) (Fin 20))
      \<lparr>rect_left = Fin 10, rect_top = Fin 20, rect_width = Fin 200, rect_height = Fin 100\<rparr>) = Fin 0"
  "clamp (normalized_y (MouseEvent (Fin 10) (Fin 20))
      \<lparr>rect_left = Fin 10, rect_top = Fin 20, rect_width = Fin 200, rect_height = Fin 100\<rparr>) = Fin 0"
  by code_simp+

text \<open>
  C8. A pointer move on a card with listeners runs \<open>handleMove\<close>. Let \<open>cx\<close> and \<open>cy\<close> be
  the clamped normalized coordinates of the pointer in the rectangle the handler uses; they lie
  between \<open>0\<close> and \<open>1\<close>. The transform written is a rotation about the horizontal axis of
  \<open>20 (1/2 - cy)\<close> degrees and about the vertical axis of \<open>20 (cx - 1/2)\<close> degrees, each up
  to the rounding of the two operations (at most \<open>2\<^sup>-\<^sup>4\<^sup>8\<close>), hence between \<open>-10\<close> and \<open>10\<close>;
  the glare \<open>--g\<close> is \<open>1 - 1.5 d\<close> clamped to \<open>[0, 1]\<close>, \<open>d\<close> the distance of \<open>(cx, cy)\<close> from
  \<open>(1/2, 1/2)\<close>, up to the rounding of the six operations (at most \<open>2\<^sup>-\<^sup>2\<^sup>5\<close>). At the centre
  the rotation is \<open>(0, 0)\<close> and the glare \<open>1\<close>, exactly; at a corner each rotation is \<open>10\<close>
  or \<open>-10\<close>, towards the pointer, and the glare is \<open>0\<close>, exactly. In a rectangle at
  \<open>(10, 20)\<close> of width \<open>200\<close> and height \<open>100\<close>, a mouse at \<open>(160, 45)\<close> has the normalized
  coordinates \<open>(3/4, 1/4)\<close>, and a touch at \<open>(500, -30)\<close>, outside the rectangle, \<open>(1, 0)\<close>.
\<close>

theorem tilt_rotation_and_glare:
  assumes l: "listening c"
    and r: "r = (case cached_rect c of Some r' \<Rightarrow> r' | None \<Rightarrow> bounding)"
    and cx: "clamp (normalized_x e r) = Fin cx"
    and cy: "clamp (normalized_y e r) = Fin cy"
  shows "card_dispatch (Move e) bounding c = handleMove e bounding c
    \<and> 0 \<le> cx \<and> cx \<le> 1 \<and> 0 \<le> cy \<and> cy \<le> 1
    \<and> (\<exists>rx ry g.
          style_transform (handleMove e bounding c) = Some (Tilt (Fin rx) (Fin ry) (103 / 100))
        \<and> \<bar>ry - 20 * (cx - 1 / 2)\<bar> \<le> 1 / 2 ^ 48
        \<and> \<bar>rx - 20 * (1 / 2 - cy)\<bar> \<le> 1 / 2 ^ 48
        \<and> - 10 \<le> rx \<and> rx \<le> 10 \<and> - 10 \<le> ry \<and> ry \<le> 10
        \<and> var_g (handleMove e bounding c) = Some (Fin g)
        \<and> \<bar>g - max 0 (min 1 (1 - 3 / 2 *
              sqrt ((cx - 1 / 2) * (cx - 1 / 2) + (cy - 1 / 2) * (cy - 1 / 2))))\<bar> \<le> 1 / 2 ^ 25
        \<and> 0 \<le> g \<and> g \<le> 1)
    \<and> (cx = 1 / 2 \<and> cy = 1 / 2 \<longrightarrow>
          style_transform (handleMove e bounding c) = Some (Tilt (Fin 0) (Fin 0) (103 / 100))
        \<and> var_g (handleMove e bounding c) = Some (Fin 1))
    \<and> ((cx = 0 \<or> cx = 1) \<and> (cy = 0 \<or> cy = 1) \<longrightarrow>
          style_transform (handleMove e bounding c) =
            Some (Tilt (Fin (10 - 20 * cy)) (Fin (20 * cx - 10)) (103 / 100))
        \<and> var_g (handleMove e bounding c) = Some (Fin 0))
    \<and> clamp (normalized_x (MouseEvent (Fin 160) (Fin 45))
        \<lparr>rect_left = Fin 10, rect_top = Fin 20, rect_width = Fin 200, rect_height = Fin 100\<rparr>) = Fin (3 / 4)
    \<and> clamp (normalized_y (MouseEvent (Fin 160) (Fin 45))
        \<lparr>rect_left = Fin 10, rect_top = Fin 20, rect_width = Fin 200, rect_height = Fin 100\<rparr>) = Fin (1 / 4)
    \<and> clamp (normalized_x (TouchEvent [(Fin 500, Fin (- 30))])
        \<lparr>rect_left = Fin 10, rect_top = Fin 20, rect_width = Fin 200, rect_height = Fin 100\<rparr>) = Fin 1
    \<and> clamp (normalized_y (TouchEvent [(Fin 500, Fin (- 30))])
        \<lparr>rect_left = Fin 10, rect_top = Fin 20, rect_width = Fin 200, rect_height = Fin 100\<rparr>) = Fin 0"
proof -
  have t: "style_transform (handleMove e bounding c) =
      Some (Tilt (rotation_X (Fin cy)) (rotation_Y (Fin cx)) (103 / 100))"
    and g: "var_g (handleMove e bounding c) = Some (glare (Fin cx) (Fin cy))"
    using handleMove_fields[of e bounding c] cx cy unfolding r by simp_all
  have bcx: "0 \<le> cx \<and> cx \<le> 1" using cx by (rule clamp_FinD)
  have bcy: "0 \<le> cy \<and> cy \<le> 1" using cy by (rule clamp_FinD)
  have 1: "card_dispatch (Move e) bounding c = handleMove e bounding c"
    using l by (rule dispatch_move)
  obtain ry where ry: "rotation_Y (Fin cx) = Fin ry" "\<bar>ry - 20 * (cx - 1 / 2)\<bar> \<le> 1 / 2 ^ 48"
    using rotation_Y_linear[of cx] bcx by blast
  obtain rx where rx: "rotation_X (Fin cy) = Fin rx" "\<bar>rx - 20 * (1 / 2 - cy)\<bar> \<le> 1 / 2 ^ 48"
    using rotation_X_linear[of cy] bcy by blast
  obtain gl where gl: "glare (Fin cx) (Fin cy) = Fin gl" "0 \<le> gl" "gl \<le> 1"
    "\<bar>gl - max 0 (min 1 (1 - 3 / 2 *
        sqrt ((cx - 1 / 2) * (cx - 1 / 2) + (cy - 1 / 2) * (cy - 1 / 2))))\<bar> \<le> 1 / 2 ^ 25"
    using glare_error[of cx cy] bcx bcy by blast
  have "in_range (- 10) 10 (rotation_Y (Fin cx))" by (rule rotation_Y_range) (use bcx in simp)
  then have ryb: "- 10 \<le> ry \<and> ry \<le> 10" unfolding ry(1) by simp
  have "in_range (- 10) 10 (rotation_X (Fin cy))" by (rule rotation_X_range) (use bcy in simp)
  then have rxb: "- 10 \<le> rx \<and> rx \<le> 10" unfolding rx(1) by simp
  have 2: "\<exists>rx ry g.
          style_transform (handleMove e bounding c) = Some (Tilt (Fin rx) (Fin ry) (103 / 100))
        \<and> \<bar>ry - 20 * (cx - 1 / 2)\<bar> \<le> 1 / 2 ^ 48
        \<and> \<bar>rx - 20 * (1 / 2 - cy)\<bar> \<le> 1 / 2 ^ 48
        \<and> - 10 \<le> rx \<and> rx \<le> 10 \<and> - 10 \<le> ry \<and> ry \<le> 10
        \<and> var_g (handleMove e bounding c) = Some (Fin g)
        \<and> \<bar>g - max 0 (min 1 (1 - 3 / 2 *
              sqrt ((cx - 1 / 2) * (cx - 1 / 2) + (cy - 1 / 2) * (cy - 1 / 2))))\<bar> \<le> 1 / 2 ^ 25
        \<and> 0 \<le> g \<and> g \<le> 1"
    using rx ry gl ryb rxb unfolding t g by blast
  have 3: "cx = 1 / 2 \<and> cy = 1 / 2 \<longrightarrow>
          style_transform (handleMove e bounding c) = Some (Tilt (Fin 0) (Fin 0) (103 / 100))
        \<and> var_g (handleMove e bounding c) = Some (Fin 1)"
  proof
    assume a: "cx = 1 / 2 \<and> cy = 1 / 2"
    have "rotation_X (Fin cy) = Fin 0" "rotation_Y (Fin cx) = Fin 0"
      "glare (Fin cx) (Fin cy) = Fin 1"
      unfolding a[THEN conjunct1] a[THEN conjunct2]
      by (rule rotation_center glare_center)+
    then show "style_transform (handleMove e bounding c) = Some (Tilt (Fin 0) (Fin 0) (103 / 100))
        \<and> var_g (handleMove e bounding c) = Some (Fin 1)"
      unfolding t g by simp
  qed
  have 4: "(cx = 0 \<or> cx = 1) \<and> (cy = 0 \<or> cy = 1) \<longrightarrow>
          style_transform (handleMove e bounding c) =
            Some (Tilt (Fin (10 - 20 * cy)) (Fin (20 * cx - 10)) (103 / 100))
        \<and> var_g (handleMove e bounding c) = Some (Fin 0)"
  proof
    assume a: "(cx = 0 \<or> cx = 1) \<and> (cy = 0 \<or> cy = 1)"
    then have "glare (Fin cx) (Fin cy) = Fin 0" by (intro glare_corner) simp_all
    moreover have "rotation_Y (Fin cx) = Fin (20 * cx - 10)" using a rotation_ends by auto
    moreover have "rotation_X (Fin cy) = Fin (10 - 20 * cy)" using a rotation_ends by auto
    ultimately show "style_transform (handleMove e bounding c) =
            Some (Tilt (Fin (10 - 20 * cy)) (Fin (20 * cx - 10)) (103 / 100))
        \<and> var_g (handleMove e bounding c) = Some (Fin 0)"
      unfolding t g by simp
  qed
  show ?thesis
    by (intro conjI 1 bcx[THEN conjunct1] bcx[THEN conjunct2] bcy[THEN conjunct1] bcy[THEN conjunct2]
        2 3 4 normalized_examples(1) normalized_examples(2) normalized_examples(3)
        normalized_examples(4))
qed

theorem tilt_rotation_and_glare_witness:
  "(\<exists>rx ry g.
     style_transform (card_dispatch (Move (MouseEvent (Fin 160) (Fin 70)))
       \<lparr>rect_left = Fin 10, rect_top = Fin 20, rect_width = Fin 200, rect_height = Fin 100\<rparr>
       \<lparr>tiltInit = True, listening = True, cached_rect = None, style_transform = None,
        style_transition = None, style_boxShadow = None, var_px = Some (Fin 50),
        var_py = Some (Fin 50), var_g = Some (Fin 0)\<rparr>) = Some (Tilt (Fin rx) (Fin ry) (103 / 100))
   \<and> \<bar>ry - 5\<bar> \<le> 1 / 2 ^ 48 \<and> \<bar>rx\<bar> \<le> 1 / 2 ^ 48
   \<and> var_g (card_dispatch (Move (MouseEvent (Fin 160) (Fin 70)))
       \<lparr>rect_left = Fin 10, rect_top = Fin 20, rect_width = Fin 200, rect_height = Fin 100\<rparr>
       \<lparr>tiltInit = True, listening = True, cached_rect = None, style_transform = None,
        style_transition = None, style_boxShadow = None, var_px = Some (Fin 50),
        var_py = Some (Fin 50), var_g = Some (Fin 0)\<rparr>) = Some (Fin g)
   \<and> \<bar>g - 5 / 8\<bar> \<le> 1 / 2 ^ 25)
   \<and> style_transform (card_dispatch (Move (MouseEvent (Fin 110) (Fin 70)))
       \<lparr>rect_left = Fin 10, rect_top = Fin 20, rect_width = Fin 200, rect_height = Fin 100\<rparr>
       \<lparr>tiltInit = True, listening = True, cached_rect = None, style_transform = None,
        style_transition = None, style_boxShadow = None, var_px = Some (Fin 50),
        var_py = Some (Fin 50), var_g = Some (Fin 0)\<rparr>) = Some (Tilt (Fin 0) (Fin 0) (103 / 100))
   \<and> var_g (card_dispatch (Move (MouseEvent (Fin 110) (Fin 70)))
       \<lparr>rect_left = Fin 10, rect_top = Fin 20, rect_width = Fin 200, rect_height = Fin 100\<rparr>
       \<lparr>tiltInit = True, listening = True, cached_rect = None, style_transform = None,
        style_transition = None, style_boxShadow = None, var_px = Some (Fin 50),
        var_py = Some (Fin 50), var_g = Some (Fin 0)\<rparr>) = Some (Fin 1)
   \<and> style_transform (card_dispatch (Move (MouseEvent (Fin 10) (Fin 20)))
       \<lparr>rect_left = Fin 10, rect_top = Fin 20, rect_width = Fin 200, rect_height = Fin 100\<rparr>
       \<lparr>tiltInit = True, listening = True, cached_rect = None, style_transform = None,
        style_transition = None, style_boxShadow = None, var_px = Some (Fin 50),
        var_py = Some (Fin 50), var_g = Some (Fin 0)\<rparr>) = Some (Tilt (Fin 10) (Fin (- 10)) (103 / 100))
   \<and> var_g (card_dispatch (Move (MouseEvent (Fin 10) (Fin 20)))
       \<lparr>rect_left = Fin 10, rect_top = Fin 20, rect_width = Fin 200, rect_height = Fin 100\<rparr>
       \<lparr>tiltInit = True, listening = True, cached_rect = None, style_transform = None,
        style_transition = None, style_boxShadow = None, var_px = Some (Fin 50),
        var_py = Some (Fin 50), var_g = Some (Fin 0)\<rparr>) = Some (Fin 0)"
proof -
  define b where "b = \<lparr>rect_left = Fin 10, rect_top = Fin 20, rect_width = Fin 200, rect_height = Fin 100\<rparr>"
  define c where "c = \<lparr>tiltInit = True, listening = True, cached_rect = None, style_transform = None,
        style_transition = None, style_boxShadow = None, var_px = Some (Fin 50),
        var_py = Some (Fin 50), var_g = Some (Fin 0)\<rparr>"
  have l: "listening c" by (simp add: c_def)
  have r: "b = (case cached_rect c of Some r' \<Rightarrow> r' | None \<Rightarrow> b)" by (simp add: c_def)
  have x: "clamp (normalized_x (MouseEvent (Fin 160) (Fin 70)) b) = Fin (3 / 4)"
    unfolding b_def by (rule normalized_examples(5))
  have y: "clamp (normalized_y (MouseEvent (Fin 160) (Fin 70)) b) = Fin (1 / 2)"
    unfolding b_def by (rule normalized_examples(6))
  note inst = tilt_rotation_and_glare[OF l r x y]
  have d: "card_dispatch (Move (MouseEvent (Fin 160) (Fin 70))) b c =
      handleMove (MouseEvent (Fin 160) (Fin 70)) b c"
    using inst by (rule conjunct1)
  obtain rx ry g where v:
    "style_transform (handleMove (MouseEvent (Fin 160) (Fin 70)) b c) =
       Some (Tilt (Fin rx) (Fin ry) (103 / 100))"
    "\<bar>ry - 20 * (3 / 4 - 1 / 2)\<bar> \<le> 1 / 2 ^ 48"
    "\<bar>rx - 20 * (1 / 2 - 1 / 2)\<bar> \<le> 1 / 2 ^ 48"
    "var_g (handleMove (MouseEvent (Fin 160) (Fin 70)) b c) = Some (Fin g)"
    "\<bar>g - max 0 (min 1 (1 - 3 / 2 *
        sqrt ((3 / 4 - 1 / 2) * (3 / 4 - 1 / 2) + (1 / 2 - 1 / 2) * (1 / 2 - 1 / 2))))\<bar> \<le> 1 / 2 ^ 25"
    using inst by blast
  have s: "sqrt ((3 / 4 - 1 / 2) * (3 / 4 - 1 / 2) + (1 / 2 - 1 / 2) * (1 / 2 - 1 / 2)) = 1 / 4"
    by (rule real_sqrt_unique) (simp_all add: power2_eq_square)
  have m: "max 0 (min 1 (1 - 3 / 2 * (1 / 4))) = (5::real) / 8" by simp
  have 1: "\<bar>ry - 5\<bar> \<le> 1 / 2 ^ 48" using v(2) by simp
  have 2: "\<bar>rx\<bar> \<le> 1 / 2 ^ 48" using v(3) by simp
  have 3: "\<bar>g - 5 / 8\<bar> \<le> 1 / 2 ^ 25" using v(5) unfolding s m .
  have first: "\<exists>rx ry g.
     style_transform (card_dispatch (Move (MouseEvent (Fin 160) (Fin 70))) b c) =
       Some (Tilt (Fin rx) (Fin ry) (103 / 100))
   \<and> \<bar>ry - 5\<bar> \<le> 1 / 2 ^ 48 \<and> \<bar>rx\<bar> \<le> 1 / 2 ^ 48
   \<and> var_g (card_dispatch (Move (MouseEvent (Fin 160) (Fin 70))) b c) = Some (Fin g)
   \<and> \<bar>g - 5 / 8\<bar> \<le> 1 / 2 ^ 25"
    unfolding d using v(1) v(4) 1 2 3 by blast
  have xc: "clamp (normalized_x (MouseEvent (Fin 110) (Fin 70)) b) = Fin (1 / 2)"
    unfolding b_def by (rule normalized_examples(7))
  have yc: "clamp (normalized_y (MouseEvent (Fin 110) (Fin 70)) b) = Fin (1 / 2)"
    unfolding b_def by (rule normalized_examples(8))
  note centre = tilt_rotation_and_glare[OF l r xc yc]
  have dc: "card_dispatch (Move (MouseEvent (Fin 110) (Fin 70))) b c =
      handleMove (MouseEvent (Fin 110) (Fin 70)) b c"
    using centre by (rule conjunct1)
  have second: "style_transform (card_dispatch (Move (MouseEvent (Fin 110) (Fin 70))) b c) =
       Some (Tilt (Fin 0) (Fin 0) (103 / 100))
    \<and> var_g (card_dispatch (Move (MouseEvent (Fin 110) (Fin 70))) b c) = Some (Fin 1)"
    unfolding dc using centre by blast
  have xk: "clamp (normalized_x (MouseEvent (Fin 10) (Fin 20)) b) = Fin 0"
    unfolding b_def by (rule normalized_examples(9))
  have yk: "clamp (normalized_y (MouseEvent (Fin 10) (Fin 20)) b) = Fin 0"
    unfolding b_def by (rule normalized_examples(10))
  note corner = tilt_rotation_and_glare[OF l r xk yk]
  have dk: "card_dispatch (Move (MouseEvent (Fin 10) (Fin 20))) b c =
      handleMove (MouseEvent (Fin 10) (Fin 20)) b c"
    using corner by (rule conjunct1)
  have "style_transform (card_dispatch (Move (MouseEvent (Fin 10) (Fin 20))) b c) =
       Some (Tilt (Fin (10 - 20 * 0)) (Fin (20 * 0 - 10)) (103 / 100))
    \<and> var_g (card_dispatch (Move (MouseEvent (Fin 10) (Fin 20))) b c) = Some (Fin 0)"
    unfolding dk using corner by blast
  then have third: "style_transform (card_dispatch (Move (MouseEvent (Fin 10) (Fin 20))) b c) =
       Some (Tilt (Fin 10) (Fin (- 10)) (103 / 100))
    \<and> var_g (card_dispatch (Move (MouseEvent (Fin 10) (Fin 20))) b c) = Some (Fin 0)"
    by simp
  show ?thesis
    unfolding b_def[symmetric] c_def[symmetric] using first second third by blast
qed



section \<open>The periodic hero animation\<close>

lemma idle_page_step:
  "timeouts p = [] \<Longrightarrow> intervals p = [] \<Longrightarrow> page_step p ev = p"
  by (cases ev) simp_all

lemma idle_run_events:
  "timeouts p = [] \<Longrightarrow> intervals p = [] \<Longrightarrow> run_events p evs = p"
  unfolding run_events_def by (induction evs) (simp_all add: idle_page_step)

lemma hero_animation_plays:
  "class_added (run_events (periodicHeroAnimation False (fresh_page (Some {})))
      [TimeoutFires 0]) = 1
   \<and> hero_classes (run_events (periodicHeroAnimation False (fresh_page (Some {})))
      [TimeoutFires 0]) = Some {''hero-animate''}"
  by (simp add: run_events_def periodicHeroAnimation_def fresh_page_def playOnce_def
      removeAnimate_def)

text \<open>
  C9. With the reduced-motion preference set, \<open>periodicHeroAnimation\<close> leaves the page as it
  is: it registers no timeout, no interval and no listener. So on a page with no timer
  pending nothing ever happens, whatever events follow: on a fresh page, the class
  \<open>hero-animate\<close> is added zero times and the classes of the hero element are those it had,
  at load and after any sequence of events. Without the preference the first timeout adds
  the class.
\<close>

theorem reduced_motion_never_animates:
  "periodicHeroAnimation True p = p
   \<and> (timeouts p = [] \<and> intervals p = [] \<longrightarrow>
        run_events (periodicHeroAnimation True p) evs = p)
   \<and> class_added (run_events (periodicHeroAnimation True (fresh_page cs)) evs) = 0
   \<and> hero_classes (run_events (periodicHeroAnimation True (fresh_page cs)) evs) = cs
   \<and> timeouts (run_events (periodicHeroAnimation True (fresh_page cs)) evs) = []
   \<and> intervals (run_events (periodicHeroAnimation True (fresh_page cs)) evs) = []
   \<and> class_added (run_events (periodicHeroAnimation False (fresh_page (Some {})))
        [TimeoutFires 0]) = 1
   \<and> hero_classes (run_events (periodicHeroAnimation False (fresh_page (Some {})))
        [TimeoutFires 0]) = Some {''hero-animate''}"
proof -
  have 1: "periodicHeroAnimation True p = p" for p
    by (simp add: periodicHeroAnimation_def)
  have 2: "timeouts p = [] \<and> intervals p = [] \<longrightarrow>
        run_events (periodicHeroAnimation True p) evs = p"
    by (simp add: 1 idle_run_events)
  have 3: "run_events (periodicHeroAnimation True (fresh_page cs)) evs = fresh_page cs"
    by (simp add: 1 idle_run_events fresh_page_def)
  have 4: "class_added (fresh_page cs) = 0" "hero_classes (fresh_page cs) = cs"
    "timeouts (fresh_page cs) = []" "intervals (fresh_page cs) = []"
    by (simp_all add: fresh_page_def)
  show ?thesis
    unfolding 3
    by (intro conjI 1 2 4 hero_animation_plays[THEN conjunct1] hero_animation_plays[THEN conjunct2])
qed

theorem reduced_motion_never_animates_witness:
  "class_added (run_events (periodicHeroAnimation True (fresh_page (Some {''hero-gradient''})))
      [TimeoutFires 0, IntervalFires 0, TimeoutFires 0, BeforeUnload]) = 0
   \<and> hero_classes (run_events (periodicHeroAnimation True (fresh_page (Some {''hero-gradient''})))
      [TimeoutFires 0, IntervalFires 0, TimeoutFires 0, BeforeUnload]) = Some {''hero-gradient''}
   \<and> run_events (periodicHeroAnimation True (fresh_page None)) [TimeoutFires 0, IntervalFires 0]
       = fresh_page None"
proof -
  have i: "timeouts (fresh_page None) = [] \<and> intervals (fresh_page None) = []"
    by (simp add: fresh_page_def)
  have a: "run_events (periodicHeroAnimation True (fresh_page None)) [TimeoutFires 0, IntervalFires 0]
       = fresh_page None"
    using reduced_motion_never_animates[where p = "fresh_page None"
      and evs = "[TimeoutFires 0, IntervalFires 0]"] i by blast
  show ?thesis
    using a reduced_motion_never_animates[where cs = "Some {''hero-gradient''}"
      and evs = "[TimeoutFires 0, IntervalFires 0, TimeoutFires 0, BeforeUnload]"]
    by blast
qed

end
